theory Spec2Isabelle
  imports Main
begin

section \<open>Strings of the Python 2 runtime\<close>

text \<open>
  The program is Python 2: a \<open>str\<close> is a sequence of bytes, a \<open>unicode\<close> a sequence of
  code points.  Bytes are \<^typ>\<open>char\<close> (eight bits), code points are natural numbers.
\<close>

type_synonym unicode = "nat list"

definition dquote :: char where "dquote = CHR 0x22"
definition squote :: char where "squote = CHR 0x27"
definition backslash :: char where "backslash = CHR 0x5C"
definition newline :: char where "newline = CHR 0x0A"

text \<open>A \<open>str\<close> literal of ASCII characters, compared with or formatted into a \<open>unicode\<close>.\<close>

definition ascii :: "string \<Rightarrow> unicode" where
  "ascii s = map of_char s"

text \<open>\<open>s.startswith(p)\<close>.\<close>

definition startswith :: "'a list \<Rightarrow> 'a list \<Rightarrow> bool" where
  "startswith s p = (take (length p) s = p)"

text \<open>\<open>s.endswith(p)\<close>.\<close>

definition endswith :: "'a list \<Rightarrow> 'a list \<Rightarrow> bool" where
  "endswith s p = (length p \<le> length s \<and> drop (length s - length p) s = p)"

text \<open>
  \<open>s[i:j]\<close>: a negative bound counts from the end, and both bounds are clamped to
  \<open>0 .. len(s)\<close>; the slice is empty when the bounds cross.
\<close>

definition slice_bound :: "nat \<Rightarrow> int \<Rightarrow> nat" where
  "slice_bound n i = (if i < 0 then nat (max 0 (int n + i)) else min n (nat i))"

definition slice :: "'a list \<Rightarrow> int \<Rightarrow> int \<Rightarrow> 'a list" where
  "slice s i j = drop (slice_bound (length s) i) (take (slice_bound (length s) j) s)"

text \<open>
  \<open>s.replace(old, new)\<close>: the occurrences of \<open>old\<close> are found from the left and do not
  overlap; the text that a replacement leaves behind is not scanned again.  An empty
  \<open>old\<close> matches before every character and at the end.
\<close>

fun replace :: "'a list \<Rightarrow> 'a list \<Rightarrow> 'a list \<Rightarrow> 'a list" where
  "replace [] old new = (if old = [] then new else [])"
| "replace (c # cs) old new =
     (if old = [] then new @ c # replace cs old new
      else if startswith (c # cs) old then new @ replace (drop (length old) (c # cs)) old new
      else c # replace cs old new)"

text \<open>\<open>str(n)\<close> of an integer: its decimal digits, with a minus sign when negative.\<close>

definition digit :: "nat \<Rightarrow> char" where
  "digit d = char_of (48 + d)"

fun digits :: "nat \<Rightarrow> string" where
  "digits n = (if n < 10 then [digit n] else digits (n div 10) @ [digit (n mod 10)])"

declare digits.simps [simp del]

definition str :: "int \<Rightarrow> string" where
  "str i = (if i < 0 then CHR ''-'' # digits (nat (- i)) else digits (nat i))"


section \<open>Codecs\<close>

datatype error =
  GetoptError
  | SystemExit string
  | IOError string
  | OSError string
  | TokenError
  | UnicodeDecodeError
  | LookupError
  | AttributeError
  | TypeError

text \<open>
  The UTF-8 codec of the runtime, strict mode, as a byte automaton: \<open>k\<close> continuation
  bytes are still expected, \<open>acc\<close> holds the bits read so far, and the next continuation
  byte must lie in \<open>lo .. hi\<close> (this excludes over-long forms and code points above
  U+10FFFF).  A lead byte in \<open>0xC2 .. 0xDF\<close> opens a two-byte sequence, \<open>0xE0 .. 0xEF\<close>
  a three-byte one, \<open>0xF0 .. 0xF4\<close> a four-byte one; every other byte from \<open>0x80\<close> on
  is an illegal start.  \<open>None\<close> is \<open>UnicodeDecodeError\<close>.
\<close>

fun utf8 :: "nat \<Rightarrow> nat \<Rightarrow> nat \<Rightarrow> nat \<Rightarrow> string \<Rightarrow> unicode option" where
  "utf8 k acc lo hi [] = (if k = 0 then Some [] else None)"
| "utf8 k acc lo hi (c # cs) =
     (let b = of_char c in
      if k = 0 then
        if b < 0x80 then map_option ((#) b) (utf8 0 0 0 0 cs)
        else if 0xC2 \<le> b \<and> b \<le> 0xDF then utf8 1 (b mod 32) 0x80 0xBF cs
        else if b = 0xE0 then utf8 2 (b mod 16) 0xA0 0xBF cs
        else if 0xE1 \<le> b \<and> b \<le> 0xEF then utf8 2 (b mod 16) 0x80 0xBF cs
        else if b = 0xF0 then utf8 3 (b mod 8) 0x90 0xBF cs
        else if 0xF1 \<le> b \<and> b \<le> 0xF3 then utf8 3 (b mod 8) 0x80 0xBF cs
        else if b = 0xF4 then utf8 3 (b mod 8) 0x80 0x8F cs
        else None
      else if lo \<le> b \<and> b \<le> hi then
        if k = 1 then map_option ((#) (acc * 64 + b mod 64)) (utf8 0 0 0 0 cs)
        else utf8 (k - 1) (acc * 64 + b mod 64) 0x80 0xBF cs
      else None)"

text \<open>
  \<open>s.decode(codec)\<close> for the two codecs the program names.  ISO-8859-1 maps every byte
  to the code point of the same number and cannot fail.
\<close>

definition decode :: "string \<Rightarrow> string \<Rightarrow> error + unicode" where
  "decode s codec =
     (if codec = ''UTF-8'' then
        (case utf8 0 0 0 0 s of None \<Rightarrow> Inl UnicodeDecodeError | Some u \<Rightarrow> Inr u)
      else if codec = ''ISO-8859-1'' then Inr (map of_char s)
      else Inl LookupError)"

definition encoding :: string where
  "encoding = ''UTF-8''"

section \<open>Tokens, catalog and program state\<close>

text \<open>
  \<open>tokenize.generate_tokens\<close> yields 5-tuples \<open>(code, text, (line, column), _, _)\<close>; the
  last two components are never read.  \<open>tokenize.STRING\<close> is token type 3.  A source is
  the tokens its tokenizer yields, and whether the tokenizer raises after the last of
  them (an unterminated string or statement, a bad dedent).
\<close>

record token =
  tok_code :: nat
  tok_text :: string
  tok_line :: int
  tok_column :: int

definition STRING :: nat where
  "STRING = 3"

record source =
  tokens :: "token list"
  broken :: bool

text \<open>\<open>polib.POEntry\<close> and \<open>polib.POFile\<close>, with the attributes the program sets.\<close>

record POEntry =
  msgid :: unicode
  occurrences :: "(string \<times> string) list"

record POFile =
  metadata :: "(string \<times> string) list"
  entries :: "POEntry list"

text \<open>
  A file holds bytes, or is the catalog that \<open>POFile.save\<close> wrote (its serialisation is
  polib's).
\<close>

datatype content = Bytes string | Catalog POFile

text \<open>
  A file object opened for writing: its path and the blocks written to it so far, in
  order.  \<open>close\<close> leaves their concatenation in the file.
\<close>

record outfile =
  path :: string
  written :: "string list"

text \<open>
  The attributes of the \<open>Main\<close> instance, together with the file system and the lines
  written to the error stream.  The file system maps a path to the content of the file
  there; opening, writing and closing a file for output always succeed.  The error
  stream takes every line written to it: how the runtime encodes a \<open>unicode\<close> line for
  the stream is not part of the model.
\<close>

record state =
  prefix :: "string option"
  html :: bool
  org :: bool
  pdf :: bool
  pot :: bool
  verbose :: bool
  org_file :: "outfile option"
  po :: "POFile option"
  disk :: "string \<rightharpoonup> content"
  stderr :: "unicode list"

datatype outcome = Done state | Raised error state

text \<open>
  What the program is run with: the result of \<open>getopt.getopt(arguments, 'c:hoptv')\<close>
  (\<open>None\<close> when it raises), the source behind each file name (\<open>None\<close> when it cannot
  be opened), standard input, and the external tool, which maps its command line and the
  file system to the new file system, its output lines and its exit status (\<open>None\<close>
  when it cannot be started).
\<close>

record env =
  getopt :: "((string \<times> string) list \<times> string list) option"
  open_file :: "string \<Rightarrow> source option"
  stdin :: source
  emacs :: "string list \<Rightarrow> (string \<rightharpoonup> content) \<Rightarrow> ((string \<rightharpoonup> content) \<times> string list \<times> int) option"

section \<open>extract_strings\<close>

text \<open>Lines 107 to 112: the two sinks, for one documentation string.\<close>

definition emit :: "string \<Rightarrow> string \<Rightarrow> int \<Rightarrow> state \<Rightarrow> outcome" where
  "emit name text line st =
     (let st1 = (case org_file st of
                   None \<Rightarrow> st
                 | Some f \<Rightarrow> st\<lparr>org_file := Some (f\<lparr>written := written f @ [text]\<rparr>)\<rparr>)
      in if pot st1 then
           (case po st1 of
              None \<Rightarrow> Raised AttributeError st1
            | Some cat \<Rightarrow>
                (case decode text encoding of
                   Inl e \<Rightarrow> Raised e st1
                 | Inr m \<Rightarrow>
                     Done (st1\<lparr>po := Some (cat\<lparr>entries := entries cat @
                       [\<lparr>msgid = m, occurrences = [(name, str line)]\<rparr>]\<rparr>)\<rparr>)))
         else Done st1)"

text \<open>Lines 104 to 112: the body of the loop.\<close>

definition handle_token :: "string \<Rightarrow> state \<Rightarrow> token \<Rightarrow> outcome" where
  "handle_token name st t =
     (if tok_code t = STRING then
        if startswith (tok_text t) [dquote, dquote, dquote] then
          emit name (replace (slice (tok_text t) 3 (- 3)) [backslash, newline] []) (tok_line t) st
        else Done st
      else Done st)"

fun extract_tokens :: "string \<Rightarrow> token list \<Rightarrow> state \<Rightarrow> outcome" where
  "extract_tokens name [] st = Done st"
| "extract_tokens name (t # ts) st =
     (case handle_token name st t of
        Done st' \<Rightarrow> extract_tokens name ts st'
      | Raised e st' \<Rightarrow> Raised e st')"

definition extract_strings :: "source \<Rightarrow> string \<Rightarrow> state \<Rightarrow> outcome" where
  "extract_strings src name st =
     (case extract_tokens name (tokens src) st of
        Done st' \<Rightarrow> if broken src then Raised TokenError st' else Done st'
      | Raised e st' \<Rightarrow> Raised e st')"


section \<open>launch_emacs\<close>

text \<open>
  \<open>re.match('^Loading .*/([^/]+)\\.cache\\.\\.\\.$', line)\<close>, returning group 1.  The
  dot does not match a newline, the class \<open>[^/]\<close> does, and \<open>$\<close> matches at the end
  of the line or before a newline that ends it.  Group 1 cannot hold a slash and is
  followed by the literal to the end, so it starts after the last slash: the line
  without \<open>Loading\<close> and the literal is cut there.
\<close>

definition cache_match :: "unicode \<Rightarrow> unicode option" where
  "cache_match line =
     (if \<not> startswith line (ascii ''Loading '') then None
      else
        let r = drop 8 line;
            body = (if endswith r (ascii (''.cache...'' @ [newline])) then Some (take (length r - 10) r)
                    else if endswith r (ascii ''.cache...'') then Some (take (length r - 9) r)
                    else None)
        in case body of
             None \<Rightarrow> None
           | Some b \<Rightarrow>
               let name = rev (takeWhile (\<lambda>c. c \<noteq> of_char CHR ''/'') (rev b));
                   dir = take (length b - length name - 1) b
               in if length name < length b \<and> name \<noteq> [] \<and> of_char newline \<notin> set dir
                  then Some name else None)"

text \<open>The prefixes of line 132 to 150, in the order of the source.\<close>

definition noisy :: "string list" where
  "noisy =
     [''Loading '', ''OVERVIEW'', ''Saving file '', ''Wrote '',
      ''Exporting to '', ''LaTeX export done, '', ''Processing LaTeX file '',
      ''(No changes need to be saved)'', ''(Shell command succeeded '', ''Exporting...'',
      ''HTML export done, '', ''Publishing file '', ''Resetting org-publish-cache'',
      ''Skipping unmodified file '']"

text \<open>Lines 122 to 125: only \<open>UnicodeDecodeError\<close> is caught.\<close>

definition decode_line :: "string \<Rightarrow> error + unicode" where
  "decode_line raw =
     (if decode raw encoding = Inl UnicodeDecodeError then decode raw ''ISO-8859-1''
      else decode raw encoding)"

text \<open>Lines 122 to 152: the body of the loop, for one line of the tool's output.\<close>

definition forward_line :: "state \<Rightarrow> string \<Rightarrow> outcome" where
  "forward_line st raw =
     (case decode_line raw of
        Inl e \<Rightarrow> Raised e st
      | Inr line \<Rightarrow>
          if \<not> verbose st then
            (case cache_match line of
               Some name \<Rightarrow> Done (st\<lparr>stderr := stderr st @ [name @ ascii [newline]]\<rparr>)
             | None \<Rightarrow>
                 if list_ex (\<lambda>p. startswith line (ascii p)) noisy then Done st
                 else Done (st\<lparr>stderr := stderr st @ [line]\<rparr>))
          else Done (st\<lparr>stderr := stderr st @ [line]\<rparr>))"

fun forward_lines :: "state \<Rightarrow> string list \<Rightarrow> outcome" where
  "forward_lines st [] = Done st"
| "forward_lines st (raw # raws) =
     (case forward_line st raw of
        Done st' \<Rightarrow> forward_lines st' raws
      | Raised e st' \<Rightarrow> Raised e st')"

text \<open>
  \<open>self.prefix + ext\<close> raises \<open>TypeError\<close> when the prefix is still \<open>None\<close>.
\<close>

definition with_prefix :: "state \<Rightarrow> string \<Rightarrow> (string \<Rightarrow> outcome) \<Rightarrow> outcome" where
  "with_prefix st ext k = (case prefix st of None \<Rightarrow> Raised TypeError st | Some p \<Rightarrow> k (p @ ext))"

text \<open>Lines 117 to 119: the command line of the tool.\<close>

definition emacs_command :: "string \<Rightarrow> string \<Rightarrow> string list" where
  "emacs_command org_path format =
     [''emacs'', ''--batch'', org_path,
      ''--eval'', ''(setq org-export-allow-BIND t)'',
      ''--eval'', ''(org-export-as-'' @ format @ '' nil)'']"

text \<open>
  Lines 114 to 152.  The exit status of the tool is not read: the loop ends when the
  output does.
\<close>

definition launch_emacs :: "env \<Rightarrow> string \<Rightarrow> state \<Rightarrow> outcome" where
  "launch_emacs ev format st =
     with_prefix st ''.org'' (\<lambda>org_path.
       case emacs ev (emacs_command org_path format) (disk st) of
         None \<Rightarrow> Raised (OSError ''emacs'') st
       | Some (d, raws, status) \<Rightarrow> forward_lines (st\<lparr>disk := d\<rparr>) raws)"

section \<open>main\<close>

definition and_then :: "outcome \<Rightarrow> (state \<Rightarrow> outcome) \<Rightarrow> outcome" where
  "and_then r k = (case r of Done st \<Rightarrow> k st | Raised e st \<Rightarrow> Raised e st)"

text \<open>The class attributes of line 32 to 37, before \<open>main\<close> runs.\<close>

definition initial :: "(string \<rightharpoonup> content) \<Rightarrow> state" where
  "initial d =
     \<lparr>prefix = None, html = False, org = False, pdf = False, pot = False, verbose = False,
      org_file = None, po = None, disk = d, stderr = []\<rparr>"

text \<open>Lines 45 to 56: one option.  The test for \<open>-c\<close> is not part of the chain.\<close>

definition decode_option :: "state \<Rightarrow> string \<times> string \<Rightarrow> state" where
  "decode_option st ov =
     (let option = fst ov; value = snd ov;
          st1 = (if option = ''-c'' then st\<lparr>prefix := Some value\<rparr> else st)
      in if option = ''-h'' then st1\<lparr>html := True\<rparr>
         else if option = ''-o'' then st1\<lparr>org := True\<rparr>
         else if option = ''-p'' then st1\<lparr>pdf := True\<rparr>
         else if option = ''-t'' then st1\<lparr>pot := True\<rparr>
         else if option = ''-v'' then st1\<lparr>verbose := True\<rparr>
         else st1)"

text \<open>Lines 57 to 61.  \<open>not self.prefix\<close> holds for \<open>None\<close> and for the empty string.\<close>

definition check_options :: "state \<Rightarrow> outcome" where
  "check_options st =
     (if prefix st = None \<or> prefix st = Some [] then
        Raised (SystemExit ''Option -c is mandatory.'') st
      else if (html st \<or> pdf st) \<and> \<not> org st then
        with_prefix st [] (\<lambda>p.
          if disk st (p @ ''.org'') \<noteq> None then
            Raised (SystemExit (''File '' @ p @ ''.org exists and -o not specified.'')) st
          else Done st)
      else Done st)"

definition po_metadata :: "(string \<times> string) list" where
  "po_metadata =
     [(''Project-Id-Version'', ''1.0''),
      (''Report-Msgid-Bugs-To'', ''you@example.com''),
      (''POT-Creation-Date'', ''2007-10-18 14:00+0100''),
      (''PO-Revision-Date'', ''2007-10-18 14:00+0100''),
      (''Last-Translator'', ''you <you@example.com>''),
      (''Language-Team'', ''English <yourteam@example.com>''),
      (''MIME-Version'', ''1.0''),
      (''Content-Type'', ''text/plain; charset=utf-8''),
      (''Content-Transfer-Encoding'', ''8bit'')]"

text \<open>Lines 64 to 80.  \<open>open(path, 'w')\<close> creates the file or empties it.\<close>

definition prepare :: "state \<Rightarrow> outcome" where
  "prepare st =
     and_then
       (if html st \<or> org st \<or> pdf st then
          with_prefix st ''.org'' (\<lambda>org_path.
            Done (st\<lparr>org_file := Some \<lparr>path = org_path, written = []\<rparr>,
                      disk := (disk st)(org_path \<mapsto> Bytes [])\<rparr>))
        else Done (st\<lparr>org_file := None\<rparr>))
       (\<lambda>st. if pot st then Done (st\<lparr>po := Some \<lparr>metadata = po_metadata, entries = []\<rparr>\<rparr>)
             else Done st)"

text \<open>Lines 83 to 87.\<close>

fun extract_files :: "env \<Rightarrow> string list \<Rightarrow> state \<Rightarrow> outcome" where
  "extract_files ev [] st = Done st"
| "extract_files ev (argument # arguments) st =
     (case open_file ev argument of
        None \<Rightarrow> Raised (IOError argument) st
      | Some src \<Rightarrow> and_then (extract_strings src argument st) (extract_files ev arguments))"

definition process_sources :: "env \<Rightarrow> string list \<Rightarrow> state \<Rightarrow> outcome" where
  "process_sources ev arguments st =
     (if arguments \<noteq> [] then extract_files ev arguments st
      else extract_strings (stdin ev) ''<stdin>'' st)"

text \<open>Lines 90 to 99.  \<open>os.remove\<close> raises \<open>OSError\<close> when the file is not there.\<close>

definition save_po :: "state \<Rightarrow> outcome" where
  "save_po st =
     (if pot st then
        (case po st of
           None \<Rightarrow> Raised AttributeError st
         | Some cat \<Rightarrow>
             with_prefix st ''.pot'' (\<lambda>pot_path. Done (st\<lparr>disk := (disk st)(pot_path \<mapsto> Catalog cat)\<rparr>)))
      else Done st)"

definition close_org :: "state \<Rightarrow> outcome" where
  "close_org st =
     (case org_file st of
        None \<Rightarrow> Done st
      | Some f \<Rightarrow> Done (st\<lparr>disk := (disk st)(path f \<mapsto> Bytes (concat (written f)))\<rparr>))"

definition remove_org :: "state \<Rightarrow> outcome" where
  "remove_org st =
     (if (html st \<or> pdf st) \<and> \<not> org st then
        with_prefix st ''.org'' (\<lambda>org_path.
          if disk st org_path = None then Raised (OSError org_path) st
          else Done (st\<lparr>disk := (disk st)(org_path := None)\<rparr>))
      else Done st)"

definition complete :: "env \<Rightarrow> state \<Rightarrow> outcome" where
  "complete ev st =
     and_then (save_po st) (\<lambda>st.
     and_then (close_org st) (\<lambda>st.
     and_then (if html st then launch_emacs ev ''html'' st else Done st) (\<lambda>st.
     and_then (if pdf st then launch_emacs ev ''pdf'' st else Done st)
     remove_org)))"

definition main :: "env \<Rightarrow> (string \<rightharpoonup> content) \<Rightarrow> outcome" where
  "main ev d =
     (case getopt ev of
        None \<Rightarrow> Raised GetoptError (initial d)
      | Some (options, arguments) \<Rightarrow>
          and_then (check_options (foldl decode_option (initial d) options)) (\<lambda>st.
          and_then (prepare st) (\<lambda>st.
          and_then (process_sources ev arguments st)
          (complete ev))))"

text \<open>
  The exit status of the process: \<open>sys.exit\<close> with a message prints the message to the
  error stream and exits with status 1, as an uncaught exception does after its
  traceback.
\<close>

definition exit_status :: "outcome \<Rightarrow> nat" where
  "exit_status r = (case r of Done st \<Rightarrow> 0 | Raised e st \<Rightarrow> 1)"

definition final :: "outcome \<Rightarrow> state" where
  "final r = (case r of Done st \<Rightarrow> st | Raised e st \<Rightarrow> st)"


section \<open>The specification's notions\<close>

text \<open>
  A documentation string is a string-literal token whose text begins with three
  double-quote characters.
\<close>

fun begins_with_three_dquotes :: "string \<Rightarrow> bool" where
  "begins_with_three_dquotes (a # b # c # rest) = (a = dquote \<and> b = dquote \<and> c = dquote)"
| "begins_with_three_dquotes s = False"

definition is_docstring :: "token \<Rightarrow> bool" where
  "is_docstring t = (tok_code t = STRING \<and> begins_with_three_dquotes (tok_text t))"

text \<open>Its text without the three leading and the three trailing characters.\<close>

definition strip_delimiters :: "string \<Rightarrow> string" where
  "strip_delimiters s = rev (drop 3 (rev (drop 3 s)))"

text \<open>Every backslash immediately followed by a newline is deleted, both characters.\<close>

fun delete_continuations :: "string \<Rightarrow> string" where
  "delete_continuations (a # b # rest) =
     (if a = backslash \<and> b = newline then delete_continuations rest
      else a # delete_continuations (b # rest))"
| "delete_continuations s = s"

text \<open>
  An extracted documentation unit is (text, source name, line number).  The units of a
  token stream, in token order; the units of a run, in file order.
\<close>

type_synonym doc_unit = "string \<times> string \<times> int"

definition documentation_units :: "string \<Rightarrow> token list \<Rightarrow> doc_unit list" where
  "documentation_units name toks =
     map (\<lambda>t. (delete_continuations (strip_delimiters (tok_text t)), name, tok_line t))
       (filter is_docstring toks)"

definition source_units :: "env \<Rightarrow> string list \<Rightarrow> doc_unit list" where
  "source_units ev arguments =
     (if arguments \<noteq> [] then
        concat (map (\<lambda>a. case open_file ev a of
                            None \<Rightarrow> []
                          | Some src \<Rightarrow> documentation_units a (tokens src)) arguments)
      else documentation_units ''<stdin>'' (tokens (stdin ev)))"

text \<open>The sink consumes a sequence of units, and stops at the first that raises.\<close>

fun feed :: "state \<Rightarrow> doc_unit list \<Rightarrow> outcome" where
  "feed st [] = Done st"
| "feed st (u # us) = and_then (emit (fst (snd u)) (fst u) (snd (snd u)) st) (\<lambda>st'. feed st' us)"

text \<open>The text of a unit is valid when it decodes in the declared encoding.\<close>

definition valid_text :: "string \<Rightarrow> bool" where
  "valid_text s = (utf8 0 0 0 0 s \<noteq> None)"

definition message :: "string \<Rightarrow> unicode" where
  "message s = (case utf8 0 0 0 0 s of None \<Rightarrow> [] | Some m \<Rightarrow> m)"

definition catalog_entry :: "doc_unit \<Rightarrow> POEntry" where
  "catalog_entry u = \<lparr>msgid = message (fst u), occurrences = [(fst (snd u), str (snd (snd u)))]\<rparr>"

text \<open>The value of a string of decimal digits.\<close>

definition decimal :: "string \<Rightarrow> nat" where
  "decimal s = foldl (\<lambda>a c. 10 * a + (of_char c - 48)) 0 s"

text \<open>
  A line of the form \<open>Loading <dir>/<name>.cache...\<close>, with or without the newline that
  ends it: the directory part has no newline, the name is not empty and has no slash.
\<close>

definition cache_line :: "unicode \<Rightarrow> unicode \<Rightarrow> bool" where
  "cache_line line name =
     (\<exists>dir tail. line = ascii ''Loading '' @ dir @ ascii ''/'' @ name @ ascii ''.cache...'' @ tail
        \<and> of_char newline \<notin> set dir \<and> name \<noteq> [] \<and> of_char CHR ''/'' \<notin> set name
        \<and> (tail = [] \<or> tail = ascii [newline]))"

definition has_noisy_prefix :: "unicode \<Rightarrow> bool" where
  "has_noisy_prefix line = (\<exists>p \<in> set noisy. \<exists>rest. line = ascii p @ rest)"

text \<open>The decoded line: UTF-8, and byte for byte when that fails.\<close>

definition decoded :: "string \<Rightarrow> unicode" where
  "decoded raw = (case utf8 0 0 0 0 raw of Some u \<Rightarrow> u | None \<Rightarrow> map of_char raw)"

text \<open>The options of a command line: the last value given with \<open>-c\<close>, and the flags.\<close>

definition prefix_option :: "(string \<times> string) list \<Rightarrow> string option" where
  "prefix_option options =
     (case filter (\<lambda>ov. fst ov = ''-c'') options of [] \<Rightarrow> None | v # vs \<Rightarrow> Some (snd (last (v # vs))))"

definition requested :: "string \<Rightarrow> (string \<times> string) list \<Rightarrow> bool" where
  "requested flag options = (flag \<in> set (map fst options))"

text \<open>A tool that differs from the given one in its exit status only.\<close>

definition with_status :: "(string list \<Rightarrow> int \<Rightarrow> int) \<Rightarrow> env \<Rightarrow> env" where
  "with_status f ev =
     ev\<lparr>emacs := \<lambda>argv d. map_option (\<lambda>(d', raws, status). (d', raws, f argv status)) (emacs ev argv d)\<rparr>"

text \<open>
  The sources of a run can all be read: every file opens and no tokenizer raises.
\<close>

definition readable :: "env \<Rightarrow> string list \<Rightarrow> bool" where
  "readable ev arguments =
     (if arguments \<noteq> [] then
        list_all (\<lambda>a. case open_file ev a of None \<Rightarrow> False | Some src \<Rightarrow> \<not> broken src) arguments
      else \<not> broken (stdin ev))"

section \<open>Example runs\<close>

text \<open>
  The token stream of a file that holds blank lines and then one string literal, which
  starts on the given line, and the newline after it: an \<open>NL\<close> token (type 54) for each
  blank line, the literal, \<open>NEWLINE\<close> (type 4) where the literal ends and \<open>ENDMARKER\<close>
  (type 0) on the line after.
\<close>

definition string_token :: "string \<Rightarrow> int \<Rightarrow> token" where
  "string_token literal ln = \<lparr>tok_code = STRING, tok_text = literal, tok_line = ln, tok_column = 0\<rparr>"

definition one_literal :: "string \<Rightarrow> int \<Rightarrow> source" where
  "one_literal literal ln =
     (let end_line = ln + int (length (filter (\<lambda>c. c = newline) literal));
          end_column = int (length (takeWhile (\<lambda>c. c \<noteq> newline) (rev literal)))
      in \<lparr>tokens =
             map (\<lambda>i. \<lparr>tok_code = 54, tok_text = [newline], tok_line = i, tok_column = 0\<rparr>) [1..ln - 1]
             @ [string_token literal ln,
                \<lparr>tok_code = 4, tok_text = [newline], tok_line = end_line, tok_column = end_column\<rparr>,
                \<lparr>tok_code = 0, tok_text = [], tok_line = end_line + 1, tok_column = 0\<rparr>],
           broken = False\<rparr>)"

definition dq3 :: string where "dq3 = [dquote, dquote, dquote]"
definition sq3 :: string where "sq3 = [squote, squote, squote]"

text \<open>
  A run with the given options, input files and tool; the file names are the arguments,
  in order, and standard input is empty.
\<close>

definition command ::
  "(string \<times> string) list \<Rightarrow> (string \<times> source) list \<Rightarrow>
   (string list \<Rightarrow> (string \<rightharpoonup> content) \<Rightarrow> ((string \<rightharpoonup> content) \<times> string list \<times> int) option) \<Rightarrow> env" where
  "command options files tool =
     \<lparr>getopt = Some (options, map fst files), open_file = map_of files,
      stdin = \<lparr>tokens = [], broken = False\<rparr>, emacs = tool\<rparr>"

text \<open>A tool that prints nothing and touches no file.\<close>

definition silent ::
  "string list \<Rightarrow> (string \<rightharpoonup> content) \<Rightarrow> ((string \<rightharpoonup> content) \<times> string list \<times> int) option" where
  "silent argv d = Some (d, [], 0)"

definition raised :: "outcome \<Rightarrow> error option" where
  "raised r = (case r of Done st \<Rightarrow> None | Raised e st \<Rightarrow> Some e)"

text \<open>Two input files, with one documentation string each, on line 3 and on line 12.\<close>

definition two_files :: "(string \<times> source) list" where
  "two_files =
     [(''a.py'', one_literal (dq3 @ ''one'' @ dq3) 3),
      (''b.py'', one_literal (dq3 @ ''two'' @ dq3) 12)]"

text \<open>The state in which the sources of a run are processed.\<close>

definition prepared :: "(string \<times> string) list \<Rightarrow> state" where
  "prepared options = final (prepare (foldl decode_option (initial Map.empty) options))"

text \<open>The attributes after lines 44 to 56, for a run that starts on the file system \<open>d\<close>.\<close>

definition decoded_options :: "(string \<rightharpoonup> content) \<Rightarrow> (string \<times> string) list \<Rightarrow> state" where
  "decoded_options d options = foldl decode_option (initial d) options"

text \<open>
  A tool that fails: it prints an error, touches no file and exits with status 255.  A
  tool that succeeds: it writes \<open>out.html\<close>, prints three lines and exits with
  status 0.
\<close>

definition failing_tool ::
  "string list \<Rightarrow> (string \<rightharpoonup> content) \<Rightarrow> ((string \<rightharpoonup> content) \<times> string list \<times> int) option" where
  "failing_tool argv d = Some (d, [''Symbol function definition is void'' @ [newline]], 255)"

definition exporter ::
  "string list \<Rightarrow> (string \<rightharpoonup> content) \<Rightarrow> ((string \<rightharpoonup> content) \<times> string list \<times> int) option" where
  "exporter argv d =
     Some (d(''out.html'' \<mapsto> Bytes ''<html/>''),
           [''Loading /usr/share/emacs/org.cache...'' @ [newline],
            ''Exporting...'' @ [newline],
            ''Warning: no title'' @ [newline]], 0)"

text \<open>The end of the line: the literal, with or without the newline.\<close>

definition cache_body :: "unicode \<Rightarrow> unicode option" where
  "cache_body r =
     (if endswith r (ascii (''.cache...'' @ [newline])) then Some (take (length r - 10) r)
      else if endswith r (ascii ''.cache...'') then Some (take (length r - 9) r)
      else None)"

text \<open>The tool leaves the file \<open>f\<close> as it finds it.\<close>

definition keeps :: "env \<Rightarrow> string \<Rightarrow> bool" where
  "keeps ev f = (\<forall>argv d0 d1 raws status. emacs ev argv d0 = Some (d1, raws, status) \<longrightarrow> d1 f = d0 f)"

text \<open>
  What is written to the error stream for one line of the tool's output, in verbose
  mode or not: nothing, the decoded line, or the name of a cache line.
\<close>

definition forwarded :: "bool \<Rightarrow> string \<Rightarrow> unicode list" where
  "forwarded v raw =
     (if v then [decoded raw]
      else case cache_match (decoded raw) of
             Some name \<Rightarrow> [name @ ascii [newline]]
           | None \<Rightarrow> if list_ex (\<lambda>p. startswith (decoded raw) (ascii p)) noisy then []
                     else [decoded raw])"

section \<open>Properties of the string operations\<close>

lemma startswith_three: "startswith s [dquote, dquote, dquote] = begins_with_three_dquotes s"
  by (induction s rule: begins_with_three_dquotes.induct) (auto simp: startswith_def)

lemma slice_strip: "slice s 3 (- 3) = strip_delimiters s"
proof -
  have hi: "slice_bound (length s) (- 3) = length s - 3"
    by (simp add: slice_bound_def)
  have lo: "slice_bound (length s) 3 = min (length s) 3"
    by (simp add: slice_bound_def)
  have butlast3: "rev (drop 3 (rev xs)) = take (length xs - 3) xs" for xs :: string
    by (simp add: rev_drop)
  have "strip_delimiters s = take (length s - 3 - 3) (drop 3 s)"
    unfolding strip_delimiters_def butlast3 by simp
  moreover have "slice s 3 (- 3) = take (length s - 3 - min (length s) 3) (drop (min (length s) 3) s)"
    unfolding slice_def hi lo by (simp add: drop_take)
  moreover have "take (length s - 3 - min (length s) 3) (drop (min (length s) 3) s)
                 = take (length s - 3 - 3) (drop 3 s)"
    by (cases "3 \<le> length s") (simp_all add: min_def)
  ultimately show ?thesis by simp
qed

lemma replace_delete: "replace s [backslash, newline] [] = delete_continuations s"
  by (induction s rule: delete_continuations.induct) (auto simp: startswith_def)

section \<open>The extractor\<close>

lemma handle_token_unit:
  "handle_token name st t =
     (if is_docstring t
      then emit name (delete_continuations (strip_delimiters (tok_text t))) (tok_line t) st
      else Done st)"
  by (simp add: handle_token_def is_docstring_def startswith_three slice_strip replace_delete)

lemma extract_tokens_feed:
  "extract_tokens name toks st = feed st (documentation_units name toks)"
  by (induction toks arbitrary: st)
     (auto simp: documentation_units_def handle_token_unit and_then_def split: outcome.splits)

lemma extract_strings_feed:
  "extract_strings src name st =
     and_then (feed st (documentation_units name (tokens src)))
       (\<lambda>st'. if broken src then Raised TokenError st' else Done st')"
  by (simp add: extract_strings_def extract_tokens_feed and_then_def)

text \<open>
  C1.  For every token stream, \<open>extract_strings\<close> does to the two sinks exactly what
  feeding them the documentation units of the stream does, one unit after the other:
  one unit for each string-literal token whose text begins with three double quotes,
  carrying the text without its three leading and three trailing characters and without
  any backslash-newline pair, and nothing for a prefixed literal or any other token.
  An error of the tokenizer is raised after the units of the tokens it yielded.
\<close>

theorem extract_strings_units:
  "extract_strings src name st =
     and_then (feed st (documentation_units name (tokens src)))
       (\<lambda>st'. if broken src then Raised TokenError st' else Done st')"
  by (simp add: extract_strings_def extract_tokens_feed and_then_def)

section \<open>The codec\<close>

lemma utf8_start: "utf8 0 acc lo hi s = utf8 0 0 0 0 s"
  by (cases s) simp_all

lemma utf8_append:
  "utf8 k acc lo hi a = Some x \<Longrightarrow> utf8 0 0 0 0 b = Some y \<Longrightarrow> utf8 k acc lo hi (a @ b) = Some (x @ y)"
proof (induction a arbitrary: k acc lo hi x)
  case Nil
  then have "k = 0" and "x = []" by (simp_all split: if_splits)
  with Nil.prems(2) utf8_start [of acc lo hi b] show ?case by simp
next
  case (Cons c cs)
  from Cons.prems show ?case
    by (auto simp: Let_def Cons.IH split: if_splits)
qed

section \<open>The sinks\<close>

lemma emit_no_pot:
  "\<not> pot st \<Longrightarrow> emit name text line st =
     Done (st\<lparr>org_file := map_option (\<lambda>f. f\<lparr>written := written f @ [text]\<rparr>) (org_file st)\<rparr>)"
  by (auto simp: emit_def Let_def split: option.splits)

lemma emit_valid:
  "pot st \<Longrightarrow> po st = Some cat \<Longrightarrow> valid_text text \<Longrightarrow> emit name text line st =
     Done (st\<lparr>org_file := map_option (\<lambda>f. f\<lparr>written := written f @ [text]\<rparr>) (org_file st),
              po := Some (cat\<lparr>entries := entries cat @ [catalog_entry (text, name, line)]\<rparr>)\<rparr>)"
  by (auto simp: emit_def Let_def valid_text_def decode_def encoding_def catalog_entry_def message_def
      split: option.splits)

lemma emit_invalid:
  "pot st \<Longrightarrow> po st = Some cat \<Longrightarrow> \<not> valid_text text \<Longrightarrow> emit name text line st =
     Raised UnicodeDecodeError
       (st\<lparr>org_file := map_option (\<lambda>f. f\<lparr>written := written f @ [text]\<rparr>) (org_file st)\<rparr>)"
  by (auto simp: emit_def Let_def valid_text_def decode_def encoding_def
      split: option.splits)

lemma emit_Done_valid:
  "emit name text line st = Done st' \<Longrightarrow> pot st \<Longrightarrow> valid_text text \<and> po st \<noteq> None"
  by (auto simp: emit_def Let_def valid_text_def decode_def encoding_def
      split: option.splits sum.splits if_splits)

lemma feed_append: "feed st (us @ vs) = and_then (feed st us) (\<lambda>st'. feed st' vs)"
  by (induction us arbitrary: st) (auto simp: and_then_def split: outcome.splits)

text \<open>What a pass that completes has done to the sinks.\<close>

lemma feed_Done:
  "feed st us = Done st' \<Longrightarrow>
     st' = st\<lparr>org_file := map_option (\<lambda>f. f\<lparr>written := written f @ map fst us\<rparr>) (org_file st),
              po := (if pot st then map_option (\<lambda>c. c\<lparr>entries := entries c @ map catalog_entry us\<rparr>) (po st)
                     else po st)\<rparr>
     \<and> (pot st \<longrightarrow> list_all (\<lambda>u. valid_text (fst u)) us)"
proof (induction us arbitrary: st)
  case Nil
  then show ?case by (cases "org_file st"; cases "po st") auto
next
  case (Cons u us)
  obtain body nm ln where u: "u = (body, nm, ln)" by (cases u) auto
  from Cons.prems obtain st1 where e: "emit nm body ln st = Done st1" and f: "feed st1 us = Done st'"
    by (auto simp: u and_then_def split: outcome.splits)
  note ih = Cons.IH [OF f]
  show ?case
  proof (cases "pot st")
    case False
    with e have st1: "st1 = st\<lparr>org_file := map_option (\<lambda>f. f\<lparr>written := written f @ [body]\<rparr>) (org_file st)\<rparr>"
      by (simp add: emit_no_pot)
    show ?thesis using ih False unfolding st1 u
      by (cases "org_file st") auto
  next
    case True
    with e emit_Done_valid obtain cat where v: "valid_text body" and c: "po st = Some cat" by blast
    with e True have st1: "st1 = st\<lparr>org_file := map_option (\<lambda>f. f\<lparr>written := written f @ [body]\<rparr>) (org_file st),
              po := Some (cat\<lparr>entries := entries cat @ [catalog_entry (body, nm, ln)]\<rparr>)\<rparr>"
      by (simp add: emit_valid)
    show ?thesis using ih True v c unfolding st1 u
      by (cases "org_file st") auto
  qed
qed

lemma feed_total:
  "(pot st \<Longrightarrow> po st \<noteq> None \<and> list_all (\<lambda>u. valid_text (fst u)) us) \<Longrightarrow> \<exists>st'. feed st us = Done st'"
proof (induction us arbitrary: st)
  case Nil
  then show ?case by simp
next
  case (Cons u us)
  obtain body nm ln where u: "u = (body, nm, ln)" by (cases u) auto
  show ?case
  proof (cases "pot st")
    case False
    then have e: "emit nm body ln st = Done (st\<lparr>org_file := map_option (\<lambda>f. f\<lparr>written := written f @ [body]\<rparr>) (org_file st)\<rparr>)"
      by (simp add: emit_no_pot)
    have "\<exists>st'. feed (st\<lparr>org_file := map_option (\<lambda>f. f\<lparr>written := written f @ [body]\<rparr>) (org_file st)\<rparr>) us = Done st'"
      by (rule Cons.IH) (simp add: False)
    then show ?thesis by (simp add: u e and_then_def)
  next
    case True
    with Cons.prems obtain cat where c: "po st = Some cat" and v: "valid_text body" and vs: "list_all (\<lambda>u. valid_text (fst u)) us"
      by (auto simp: u)
    let ?st1 = "st\<lparr>org_file := map_option (\<lambda>f. f\<lparr>written := written f @ [body]\<rparr>) (org_file st),
              po := Some (cat\<lparr>entries := entries cat @ [catalog_entry (body, nm, ln)]\<rparr>)\<rparr>"
    have e: "emit nm body ln st = Done ?st1" using True c v by (simp add: emit_valid)
    have "\<exists>st'. feed ?st1 us = Done st'"
      by (rule Cons.IH) (simp add: vs)
    then show ?thesis by (simp add: u e and_then_def)
  qed
qed

lemma extract_files_units:
  "extract_files ev arguments st = Done st' \<Longrightarrow>
     feed st (concat (map (\<lambda>a. case open_file ev a of None \<Rightarrow> []
                                | Some src \<Rightarrow> documentation_units a (tokens src)) arguments)) = Done st'
     \<and> list_all (\<lambda>a. case open_file ev a of None \<Rightarrow> False | Some src \<Rightarrow> \<not> broken src) arguments"
proof (induction arguments arbitrary: st)
  case Nil
  then show ?case by simp
next
  case (Cons a as)
  from Cons.prems obtain src st1 where o: "open_file ev a = Some src"
    and e: "extract_strings src a st = Done st1" and r: "extract_files ev as st1 = Done st'"
    by (auto simp: and_then_def split: option.splits outcome.splits)
  from e have f: "feed st (documentation_units a (tokens src)) = Done st1" and b: "\<not> broken src"
    by (auto simp: extract_strings_feed and_then_def split: outcome.splits if_splits)
  from Cons.IH [OF r] f b o show ?case
    by (simp add: feed_append and_then_def)
qed

lemma process_sources_Done:
  "process_sources ev arguments st = Done st' \<Longrightarrow>
     feed st (source_units ev arguments) = Done st' \<and> readable ev arguments"
  by (cases "arguments = []")
     (auto simp: process_sources_def source_units_def readable_def extract_strings_feed and_then_def
        dest: extract_files_units split: outcome.splits if_splits)

lemma extract_files_readable:
  "list_all (\<lambda>a. case open_file ev a of None \<Rightarrow> False | Some src \<Rightarrow> \<not> broken src) arguments \<Longrightarrow>
   extract_files ev arguments st =
     feed st (concat (map (\<lambda>a. case open_file ev a of None \<Rightarrow> []
                                | Some src \<Rightarrow> documentation_units a (tokens src)) arguments))"
proof (induction arguments arbitrary: st)
  case Nil
  then show ?case by simp
next
  case (Cons a as)
  then obtain src where o: "open_file ev a = Some src" and b: "\<not> broken src"
    by (auto split: option.splits)
  show ?case using Cons o b
    by (cases "feed st (documentation_units a (tokens src))")
       (simp_all add: extract_strings_feed feed_append and_then_def)
qed

lemma process_sources_readable:
  "readable ev arguments \<Longrightarrow> process_sources ev arguments st = feed st (source_units ev arguments)"
  by (cases "arguments = []"; cases "feed st (documentation_units ''<stdin>'' (tokens (stdin ev)))")
     (simp_all add: process_sources_def source_units_def readable_def extract_files_readable
        extract_strings_feed and_then_def)

lemma concat_valid:
  "list_all valid_text bs \<Longrightarrow> utf8 0 0 0 0 (concat bs) = Some (concat (map message bs))"
proof (induction bs)
  case Nil
  then show ?case by simp
next
  case (Cons b bs)
  then obtain m where m: "utf8 0 0 0 0 b = Some m" by (auto simp: valid_text_def)
  with Cons show ?case by (simp add: utf8_append message_def)
qed


lemma Done_final: "raised r = None \<Longrightarrow> r = Done (final r)"
  by (cases r) (simp_all add: raised_def final_def)

section \<open>One literal per file\<close>

text \<open>
  C2, the counterexample.  The file holds the literal \<open>'''x\<close>, backslash, newline,
  \<open>y'''\<close>, in single quotes; the run has both sinks, and completes.  Nothing is written
  to the outline, whose content is not \<open>xy\<close>, and the catalog gets no entry: the test
  of line 105 is for three double quotes.
\<close>

theorem single_quoted_not_extracted:
  "raised (main (command [(''-c'', ''out''), (''-o'', []), (''-t'', [])]
      [(''a.py'', one_literal (sq3 @ ''x'' @ [backslash, newline] @ ''y'' @ sq3) 1)] silent) Map.empty) = None
   \<and> disk (final (main (command [(''-c'', ''out''), (''-o'', []), (''-t'', [])]
      [(''a.py'', one_literal (sq3 @ ''x'' @ [backslash, newline] @ ''y'' @ sq3) 1)] silent) Map.empty)) ''out.org''
     \<noteq> Some (Bytes ''xy'')
   \<and> org_file (final (main (command [(''-c'', ''out''), (''-o'', []), (''-t'', [])]
      [(''a.py'', one_literal (sq3 @ ''x'' @ [backslash, newline] @ ''y'' @ sq3) 1)] silent) Map.empty))
     = Some \<lparr>path = ''out.org'', written = []\<rparr>
   \<and> po (final (main (command [(''-c'', ''out''), (''-o'', []), (''-t'', [])]
      [(''a.py'', one_literal (sq3 @ ''x'' @ [backslash, newline] @ ''y'' @ sq3) 1)] silent) Map.empty))
     = Some \<lparr>metadata = po_metadata, entries = []\<rparr>"
  by code_simp

text \<open>
  C2, as amended.  From a file that holds the literal \<open>"""x\<close>, backslash, newline,
  \<open>y"""\<close>, in double quotes, on line 1, the run writes \<open>xy\<close> to the outline and one
  entry with the message \<open>xy\<close> to the catalog.  From the same literal in single quotes,
  and from \<open>r"""z"""\<close>, it writes an empty outline and a catalog without entries.
\<close>

theorem one_literal_extracted:
  "disk (final (main (command [(''-c'', ''out''), (''-o'', []), (''-t'', [])]
      [(''a.py'', one_literal (dq3 @ ''x'' @ [backslash, newline] @ ''y'' @ dq3) 1)] silent) Map.empty)) ''out.org''
     = Some (Bytes ''xy'')
   \<and> disk (final (main (command [(''-c'', ''out''), (''-o'', []), (''-t'', [])]
      [(''a.py'', one_literal (dq3 @ ''x'' @ [backslash, newline] @ ''y'' @ dq3) 1)] silent) Map.empty)) ''out.pot''
     = Some (Catalog \<lparr>metadata = po_metadata,
          entries = [\<lparr>msgid = ascii ''xy'', occurrences = [(''a.py'', ''1'')]\<rparr>]\<rparr>)
   \<and> disk (final (main (command [(''-c'', ''out''), (''-o'', []), (''-t'', [])]
      [(''a.py'', one_literal (sq3 @ ''x'' @ [backslash, newline] @ ''y'' @ sq3) 1)] silent) Map.empty)) ''out.org''
     = Some (Bytes [])
   \<and> disk (final (main (command [(''-c'', ''out''), (''-o'', []), (''-t'', [])]
      [(''a.py'', one_literal (sq3 @ ''x'' @ [backslash, newline] @ ''y'' @ sq3) 1)] silent) Map.empty)) ''out.pot''
     = Some (Catalog \<lparr>metadata = po_metadata, entries = []\<rparr>)
   \<and> disk (final (main (command [(''-c'', ''out''), (''-o'', []), (''-t'', [])]
      [(''a.py'', one_literal (''r'' @ dq3 @ ''z'' @ dq3) 1)] silent) Map.empty)) ''out.org''
     = Some (Bytes [])
   \<and> disk (final (main (command [(''-c'', ''out''), (''-o'', []), (''-t'', [])]
      [(''a.py'', one_literal (''r'' @ dq3 @ ''z'' @ dq3) 1)] silent) Map.empty)) ''out.pot''
     = Some (Catalog \<lparr>metadata = po_metadata, entries = []\<rparr>)"
  by code_simp

section \<open>The outline\<close>

text \<open>
  C3.  When the outline file is open and the pass over the sources completes, the blocks
  written to the file are the blocks it held before followed by the texts of the
  documentation units of the run, in file order and in token order within a file, one
  block for each unit; closing the file leaves their concatenation in it, with nothing
  between them.  The file is opened empty (\<open>prepare\<close>), so its content is then the
  concatenation of the texts.
\<close>

theorem outline_content:
  assumes "org_file st = Some f"
    and "process_sources ev arguments st = Done st'"
  shows "org_file st' = Some (f\<lparr>written := written f @ map fst (source_units ev arguments)\<rparr>)
       \<and> disk (final (close_org st')) (path f)
           = Some (Bytes (concat (written f) @ concat (map fst (source_units ev arguments))))"
proof -
  from assms(2) have "feed st (source_units ev arguments) = Done st'"
    by (simp add: process_sources_Done)
  from feed_Done [OF this] assms(1)
  have o: "org_file st' = Some (f\<lparr>written := written f @ map fst (source_units ev arguments)\<rparr>)"
    by (cases "pot st") auto
  then show ?thesis by (simp add: close_org_def final_def)
qed

theorem outline_content_witness:
  "org_file (final (process_sources (command [(''-c'', ''out''), (''-o'', [])] two_files silent)
       [''a.py'', ''b.py''] (prepared [(''-c'', ''out''), (''-o'', [])])))
     = Some \<lparr>path = ''out.org'', written = [''one'', ''two'']\<rparr>
   \<and> disk (final (close_org (final (process_sources (command [(''-c'', ''out''), (''-o'', [])] two_files silent)
       [''a.py'', ''b.py''] (prepared [(''-c'', ''out''), (''-o'', [])]))))) ''out.org''
     = Some (Bytes ''onetwo'')"
proof -
  let ?ev = "command [(''-c'', ''out''), (''-o'', [])] two_files silent"
  let ?st = "prepared [(''-c'', ''out''), (''-o'', [])]"
  let ?r = "process_sources ?ev [''a.py'', ''b.py''] ?st"
  have h1: "org_file ?st = Some \<lparr>path = ''out.org'', written = []\<rparr>"
    by code_simp
  have "raised ?r = None" by code_simp
  then have h2: "?r = Done (final ?r)" by (rule Done_final)
  have u: "map fst (source_units ?ev [''a.py'', ''b.py'']) = [''one'', ''two'']"
    by code_simp
  from outline_content [OF h1 h2] show ?thesis
    unfolding u by simp
qed

section \<open>The catalog\<close>

lemma digit_val: "d < 10 \<Longrightarrow> of_char (digit d) = 48 + d"
  by (simp add: digit_def)

lemma digits_decimal: "foldl (\<lambda>a c. 10 * a + (of_char c - 48)) a0 (digits n) = a0 * 10 ^ length (digits n) + n"
proof (induction n arbitrary: a0 rule: digits.induct)
  case (1 n)
  show ?case
  proof (cases "n < 10")
    case True
    then have "digits n = [digit n]" by (subst digits.simps) simp
    with True show ?thesis by (simp add: digit_val)
  next
    case False
    then have e: "digits n = digits (n div 10) @ [digit (n mod 10)]" by (subst digits.simps) simp
    from False "1.IH" [of a0] show ?thesis
      unfolding e by (simp add: digit_val algebra_simps)
  qed
qed

lemma str_decimal: "0 \<le> i \<Longrightarrow> int (decimal (str i)) = i"
  by (simp add: str_def decimal_def digits_decimal [of 0])

text \<open>
  C4, the counterexample.  The run has \<open>-t\<close>, and its one file holds the documentation
  string \<open>"""caf\<close> followed by the byte \<open>0xE9\<close> (the letter in ISO-8859-1) and
  \<open>"""\<close>.  The text is not UTF-8, \<open>text.decode(encoding)\<close> raises, and the run ends
  there: the catalog has no entry for the literal, and no catalog file is written.
\<close>

theorem undecodable_text_no_entry:
  "is_docstring (string_token (dq3 @ [CHR ''c'', CHR ''a'', CHR ''f'', CHR 0xE9] @ dq3) 1)
   \<and> raised (main (command [(''-c'', ''out''), (''-t'', [])]
        [(''a.py'', one_literal (dq3 @ [CHR ''c'', CHR ''a'', CHR ''f'', CHR 0xE9] @ dq3) 1)] silent) Map.empty)
       = Some UnicodeDecodeError
   \<and> pot (final (main (command [(''-c'', ''out''), (''-t'', [])]
        [(''a.py'', one_literal (dq3 @ [CHR ''c'', CHR ''a'', CHR ''f'', CHR 0xE9] @ dq3) 1)] silent) Map.empty))
   \<and> po (final (main (command [(''-c'', ''out''), (''-t'', [])]
        [(''a.py'', one_literal (dq3 @ [CHR ''c'', CHR ''a'', CHR ''f'', CHR 0xE9] @ dq3) 1)] silent) Map.empty))
       = Some \<lparr>metadata = po_metadata, entries = []\<rparr>
   \<and> disk (final (main (command [(''-c'', ''out''), (''-t'', [])]
        [(''a.py'', one_literal (dq3 @ [CHR ''c'', CHR ''a'', CHR ''f'', CHR 0xE9] @ dq3) 1)] silent) Map.empty)) ''out.pot''
       = None"
  by code_simp

text \<open>
  C4, as amended.  When the catalog is enabled, every source can be read and the text of
  every documentation unit decodes, the pass over the sources completes and appends to
  the catalog exactly one entry for each unit, in order, with the decoded text as its
  message and the single occurrence (source name, \<open>str\<close> of the line of the token).
  \<open>str\<close> is the decimal rendering (\<open>str_decimal\<close>).
\<close>

theorem catalog_entries:
  assumes "pot st" and "po st = Some cat"
    and "readable ev arguments"
    and "list_all (\<lambda>u. valid_text (fst u)) (source_units ev arguments)"
  shows "\<exists>st'. process_sources ev arguments st = Done st'
           \<and> po st' = Some (cat\<lparr>entries := entries cat @ map catalog_entry (source_units ev arguments)\<rparr>)
           \<and> map occurrences (map catalog_entry (source_units ev arguments))
               = map (\<lambda>u. [(fst (snd u), str (snd (snd u)))]) (source_units ev arguments)"
proof -
  from assms(1,2,4) feed_total [of st "source_units ev arguments"]
  obtain st' where f: "feed st (source_units ev arguments) = Done st'" by auto
  from feed_Done [OF f] assms(1,2)
  have "po st' = Some (cat\<lparr>entries := entries cat @ map catalog_entry (source_units ev arguments)\<rparr>)"
    by (cases "org_file st") auto
  with f assms(3) show ?thesis by (simp add: process_sources_readable catalog_entry_def)
qed

text \<open>
  Two literals on line 3 of \<open>a.py\<close> and on line 12 of \<open>b.py\<close> give two entries, with
  the occurrences \<open>(a.py, 3)\<close> and \<open>(b.py, 12)\<close>.
\<close>

theorem catalog_entries_witness:
  "po (final (process_sources (command [(''-c'', ''out''), (''-t'', [])] two_files silent)
       [''a.py'', ''b.py''] (prepared [(''-c'', ''out''), (''-t'', [])])))
     = Some \<lparr>metadata = po_metadata,
          entries = [\<lparr>msgid = ascii ''one'', occurrences = [(''a.py'', ''3'')]\<rparr>,
                     \<lparr>msgid = ascii ''two'', occurrences = [(''b.py'', ''12'')]\<rparr>]\<rparr>"
proof -
  let ?ev = "command [(''-c'', ''out''), (''-t'', [])] two_files silent"
  let ?st = "prepared [(''-c'', ''out''), (''-t'', [])]"
  have h1: "pot ?st" by code_simp
  have h2: "po ?st = Some \<lparr>metadata = po_metadata, entries = []\<rparr>" by code_simp
  have h3: "readable ?ev [''a.py'', ''b.py'']" by code_simp
  have h4: "list_all (\<lambda>u. valid_text (fst u)) (source_units ?ev [''a.py'', ''b.py''])" by code_simp
  have u: "map catalog_entry (source_units ?ev [''a.py'', ''b.py''])
      = [\<lparr>msgid = ascii ''one'', occurrences = [(''a.py'', ''3'')]\<rparr>,
         \<lparr>msgid = ascii ''two'', occurrences = [(''b.py'', ''12'')]\<rparr>]"
    by code_simp
  from catalog_entries [OF h1 h2 h3 h4] show ?thesis
    unfolding u by (auto simp: final_def)
qed

section \<open>The two sinks together\<close>

text \<open>
  C10, the counterexample.  The run has \<open>-o\<close> and \<open>-t\<close>, and its one file holds a
  documentation string whose text is the byte \<open>0xFF\<close>.  The text is written to the
  outline (line 108) before it is decoded for the catalog (line 111), where the run
  ends: the outline file has one block and the catalog has no entry.
\<close>

theorem undecodable_text_sinks_differ:
  "raised (main (command [(''-c'', ''out''), (''-o'', []), (''-t'', [])]
        [(''a.py'', one_literal (dq3 @ [CHR 0xFF] @ dq3) 1)] silent) Map.empty)
       = Some UnicodeDecodeError
   \<and> org_file (final (main (command [(''-c'', ''out''), (''-o'', []), (''-t'', [])]
        [(''a.py'', one_literal (dq3 @ [CHR 0xFF] @ dq3) 1)] silent) Map.empty))
       = Some \<lparr>path = ''out.org'', written = [[CHR 0xFF]]\<rparr>
   \<and> po (final (main (command [(''-c'', ''out''), (''-o'', []), (''-t'', [])]
        [(''a.py'', one_literal (dq3 @ [CHR 0xFF] @ dq3) 1)] silent) Map.empty))
       = Some \<lparr>metadata = po_metadata, entries = []\<rparr>"
  by code_simp

text \<open>
  C10, as amended.  When both sinks are open and empty and the pass over the sources
  completes, the blocks written to the outline, decoded, are the messages of the catalog
  entries, one for one and in order, and the content of the outline, decoded, is the
  concatenation of the messages.
\<close>

theorem sinks_agree:
  assumes "org_file st = Some f" and "written f = []"
    and "pot st" and "po st = Some cat" and "entries cat = []"
    and "process_sources ev arguments st = Done st'"
  shows "\<exists>f' cat'. org_file st' = Some f' \<and> po st' = Some cat'
           \<and> map (\<lambda>b. decode b encoding) (written f') = map (\<lambda>e. Inr (msgid e)) (entries cat')
           \<and> decode (concat (written f')) encoding = Inr (concat (map msgid (entries cat')))"
proof -
  let ?us = "source_units ev arguments"
  from assms(6) have f: "feed st ?us = Done st'"
    by (simp add: process_sources_Done)
  from feed_Done [OF f] assms(1-5)
  have o: "org_file st' = Some (f\<lparr>written := map fst ?us\<rparr>)"
    and c: "po st' = Some (cat\<lparr>entries := map catalog_entry ?us\<rparr>)"
    and v: "list_all (\<lambda>u. valid_text (fst u)) ?us"
    by auto
  from v have v': "list_all valid_text (map fst ?us)"
    by (simp add: list_all_iff)
  have each: "map (\<lambda>b. decode b encoding) (map fst ?us) = map (\<lambda>e. Inr (msgid e)) (map catalog_entry ?us)"
    using v by (auto simp: list_all_iff decode_def encoding_def valid_text_def catalog_entry_def message_def)
  have whole: "decode (concat (map fst ?us)) encoding = Inr (concat (map msgid (map catalog_entry ?us)))"
    using concat_valid [OF v']
    by (simp add: decode_def encoding_def catalog_entry_def comp_def)
  from o c each whole show ?thesis by simp
qed

theorem sinks_agree_witness:
  "map (\<lambda>b. decode b encoding)
     (case org_file (final (process_sources (command [(''-c'', ''out''), (''-o'', []), (''-t'', [])] two_files silent)
        [''a.py'', ''b.py''] (prepared [(''-c'', ''out''), (''-o'', []), (''-t'', [])]))) of
        None \<Rightarrow> [] | Some f \<Rightarrow> written f)
   = map (\<lambda>e. Inr (msgid e))
     (case po (final (process_sources (command [(''-c'', ''out''), (''-o'', []), (''-t'', [])] two_files silent)
        [''a.py'', ''b.py''] (prepared [(''-c'', ''out''), (''-o'', []), (''-t'', [])]))) of
        None \<Rightarrow> [] | Some cat \<Rightarrow> entries cat)
   \<and> org_file (final (process_sources (command [(''-c'', ''out''), (''-o'', []), (''-t'', [])] two_files silent)
        [''a.py'', ''b.py''] (prepared [(''-c'', ''out''), (''-o'', []), (''-t'', [])])))
      = Some \<lparr>path = ''out.org'', written = [''one'', ''two'']\<rparr>"
proof -
  let ?ev = "command [(''-c'', ''out''), (''-o'', []), (''-t'', [])] two_files silent"
  let ?st = "prepared [(''-c'', ''out''), (''-o'', []), (''-t'', [])]"
  let ?r = "process_sources ?ev [''a.py'', ''b.py''] ?st"
  have h1: "org_file ?st = Some \<lparr>path = ''out.org'', written = []\<rparr>" by code_simp
  have h2: "written \<lparr>path = ''out.org'', written = []\<rparr> = []" by simp
  have h3: "pot ?st" by code_simp
  have h4: "po ?st = Some \<lparr>metadata = po_metadata, entries = []\<rparr>" by code_simp
  have h5: "entries \<lparr>metadata = po_metadata, entries = []\<rparr> = []" by simp
  have "raised ?r = None" by code_simp
  then have h6: "?r = Done (final ?r)" by (rule Done_final)
  have o: "org_file (final ?r) = Some \<lparr>path = ''out.org'', written = [''one'', ''two'']\<rparr>" by code_simp
  from sinks_agree [OF h1 h2 h3 h4 h5 h6] o show ?thesis
    by auto
qed

section \<open>The options\<close>

lemma prefix_option_Cons:
  "prefix_option (ov # options) =
     (case prefix_option options of
        Some v \<Rightarrow> Some v
      | None \<Rightarrow> if fst ov = ''-c'' then Some (snd ov) else None)"
  by (auto simp: prefix_option_def split: list.splits)

lemma decode_option_fields:
  "prefix (decode_option st ov) = (if fst ov = ''-c'' then Some (snd ov) else prefix st)"
  "html (decode_option st ov) = (html st \<or> fst ov = ''-h'')"
  "org (decode_option st ov) = (org st \<or> fst ov = ''-o'')"
  "pdf (decode_option st ov) = (pdf st \<or> fst ov = ''-p'')"
  "pot (decode_option st ov) = (pot st \<or> fst ov = ''-t'')"
  "verbose (decode_option st ov) = (verbose st \<or> fst ov = ''-v'')"
  "org_file (decode_option st ov) = org_file st"
  "po (decode_option st ov) = po st"
  "disk (decode_option st ov) = disk st"
  "stderr (decode_option st ov) = stderr st"
  by (simp_all add: decode_option_def Let_def)

lemma foldl_prefix:
  "prefix (foldl decode_option st options)
     = (case prefix_option options of None \<Rightarrow> prefix st | Some v \<Rightarrow> Some v)"
proof (induction options arbitrary: st)
  case Nil
  then show ?case by (simp add: prefix_option_def)
next
  case (Cons ov options)
  then show ?case
    by (simp add: prefix_option_Cons decode_option_fields split: option.splits)
qed



lemma requested_Cons: "requested flag (ov # options) = (fst ov = flag \<or> requested flag options)"
  by (auto simp: requested_def)

lemma requested_Nil: "requested flag [] = False"
  by (simp add: requested_def)

lemma foldl_html: "html (foldl decode_option st options) = (html st \<or> requested ''-h'' options)"
  by (induction options arbitrary: st) (simp_all add: decode_option_fields requested_Cons requested_Nil disj_assoc)

lemma foldl_org: "org (foldl decode_option st options) = (org st \<or> requested ''-o'' options)"
  by (induction options arbitrary: st) (simp_all add: decode_option_fields requested_Cons requested_Nil disj_assoc)

lemma foldl_pdf: "pdf (foldl decode_option st options) = (pdf st \<or> requested ''-p'' options)"
  by (induction options arbitrary: st) (simp_all add: decode_option_fields requested_Cons requested_Nil disj_assoc)

lemma foldl_pot: "pot (foldl decode_option st options) = (pot st \<or> requested ''-t'' options)"
  by (induction options arbitrary: st) (simp_all add: decode_option_fields requested_Cons requested_Nil disj_assoc)

lemma foldl_verbose: "verbose (foldl decode_option st options) = (verbose st \<or> requested ''-v'' options)"
  by (induction options arbitrary: st) (simp_all add: decode_option_fields requested_Cons requested_Nil disj_assoc)

lemma foldl_org_file: "org_file (foldl decode_option st options) = org_file st"
  by (induction options arbitrary: st) (simp_all add: decode_option_fields)

lemma foldl_po: "po (foldl decode_option st options) = po st"
  by (induction options arbitrary: st) (simp_all add: decode_option_fields)

lemma foldl_disk: "disk (foldl decode_option st options) = disk st"
  by (induction options arbitrary: st) (simp_all add: decode_option_fields)

lemma foldl_stderr: "stderr (foldl decode_option st options) = stderr st"
  by (induction options arbitrary: st) (simp_all add: decode_option_fields)

lemmas foldl_fields = foldl_prefix foldl_html foldl_org foldl_pdf foldl_pot foldl_verbose
  foldl_org_file foldl_po foldl_disk foldl_stderr

lemma decoded_options_fields:
  "prefix (decoded_options d options) = prefix_option options"
  "html (decoded_options d options) = requested ''-h'' options"
  "org (decoded_options d options) = requested ''-o'' options"
  "pdf (decoded_options d options) = requested ''-p'' options"
  "pot (decoded_options d options) = requested ''-t'' options"
  "verbose (decoded_options d options) = requested ''-v'' options"
  "org_file (decoded_options d options) = None"
  "po (decoded_options d options) = None"
  "disk (decoded_options d options) = d"
  "stderr (decoded_options d options) = []"
  unfolding decoded_options_def
  by (simp_all add: foldl_fields initial_def split: option.splits)

lemma main_options:
  "getopt ev = Some (options, arguments) \<Longrightarrow>
   main ev d =
     and_then (check_options (decoded_options d options)) (\<lambda>st.
     and_then (prepare st) (\<lambda>st.
     and_then (process_sources ev arguments st)
     (complete ev)))"
  by (simp add: main_def decoded_options_def)

text \<open>
  C5.  When no \<open>-c\<close> is among the options, or the last one has the empty value, the run
  ends at line 58 with \<open>sys.exit("Option -c is mandatory.")\<close>, hence with exit status 1,
  in the state in which the options left it: the file system is the one the run started
  with, no file has been opened, no catalog has been made and the tool has not been run.
\<close>

theorem prefix_mandatory:
  assumes "getopt ev = Some (options, arguments)"
    and "prefix_option options = None \<or> prefix_option options = Some []"
  shows "main ev d = Raised (SystemExit ''Option -c is mandatory.'') (decoded_options d options)
       \<and> exit_status (main ev d) = 1
       \<and> disk (final (main ev d)) = d
       \<and> org_file (final (main ev d)) = None
       \<and> po (final (main ev d)) = None
       \<and> stderr (final (main ev d)) = []"
proof -
  from assms(2) have "check_options (decoded_options d options)
      = Raised (SystemExit ''Option -c is mandatory.'') (decoded_options d options)"
    by (auto simp: check_options_def decoded_options_fields)
  with assms(1) have "main ev d = Raised (SystemExit ''Option -c is mandatory.'') (decoded_options d options)"
    by (simp add: main_options and_then_def)
  then show ?thesis
    by (simp add: exit_status_def final_def decoded_options_fields)
qed

theorem prefix_mandatory_witness:
  "raised (main (command [(''-h'', [])] two_files silent) [''out.org'' \<mapsto> Bytes ''old''])
     = Some (SystemExit ''Option -c is mandatory.'')
   \<and> exit_status (main (command [(''-h'', [])] two_files silent) [''out.org'' \<mapsto> Bytes ''old'']) = 1
   \<and> disk (final (main (command [(''-h'', [])] two_files silent) [''out.org'' \<mapsto> Bytes ''old'']))
       = [''out.org'' \<mapsto> Bytes ''old'']
   \<and> raised (main (command [(''-c'', []), (''-o'', [])] two_files silent) Map.empty)
     = Some (SystemExit ''Option -c is mandatory.'')
   \<and> disk (final (main (command [(''-c'', []), (''-o'', [])] two_files silent) Map.empty)) = Map.empty"
proof -
  have g1: "getopt (command [(''-h'', [])] two_files silent) = Some ([(''-h'', [])], map fst two_files)"
    by (simp add: command_def)
  have p1: "prefix_option [(''-h'', [])] = None \<or> prefix_option [(''-h'', [])] = Some []"
    by (simp add: prefix_option_def)
  have g2: "getopt (command [(''-c'', []), (''-o'', [])] two_files silent)
      = Some ([(''-c'', []), (''-o'', [])], map fst two_files)"
    by (simp add: command_def)
  have p2: "prefix_option [(''-c'', []), (''-o'', [])] = None
      \<or> prefix_option [(''-c'', []), (''-o'', [])] = Some []"
    by (simp add: prefix_option_def)
  from prefix_mandatory [OF g1 p1, of "[''out.org'' \<mapsto> Bytes ''old'']"]
       prefix_mandatory [OF g2 p2, of Map.empty]
  show ?thesis by (simp add: raised_def final_def exit_status_def decoded_options_fields)
qed

text \<open>
  C6.  When \<open>-h\<close> or \<open>-p\<close> is requested, \<open>-o\<close> is not, and the file system has a
  file \<open>PREFIX.org\<close>, the run ends at line 61 with \<open>sys.exit\<close> and the message that
  the file exists, hence with exit status 1, and the file system is the one the run
  started with: no outline, catalog, HTML or PDF file has been created or modified.
\<close>

theorem outline_exists:
  assumes "getopt ev = Some (options, arguments)"
    and "requested ''-h'' options \<or> requested ''-p'' options"
    and "\<not> requested ''-o'' options"
    and "prefix_option options = Some p" and "p \<noteq> []"
    and "d (p @ ''.org'') \<noteq> None"
  shows "main ev d = Raised (SystemExit (''File '' @ p @ ''.org exists and -o not specified.''))
                       (decoded_options d options)
       \<and> exit_status (main ev d) = 1
       \<and> disk (final (main ev d)) = d
       \<and> org_file (final (main ev d)) = None
       \<and> po (final (main ev d)) = None
       \<and> stderr (final (main ev d)) = []"
proof -
  from assms(2-6) have "check_options (decoded_options d options)
      = Raised (SystemExit (''File '' @ p @ ''.org exists and -o not specified.'')) (decoded_options d options)"
    by (auto simp: check_options_def with_prefix_def decoded_options_fields)
  with assms(1) have "main ev d = Raised (SystemExit (''File '' @ p @ ''.org exists and -o not specified.''))
                       (decoded_options d options)"
    by (simp add: main_options and_then_def)
  then show ?thesis
    by (simp add: exit_status_def final_def decoded_options_fields)
qed

theorem outline_exists_witness:
  "raised (main (command [(''-c'', ''out''), (''-h'', [])] two_files silent) [''out.org'' \<mapsto> Bytes ''old''])
     = Some (SystemExit ''File out.org exists and -o not specified.'')
   \<and> exit_status (main (command [(''-c'', ''out''), (''-h'', [])] two_files silent) [''out.org'' \<mapsto> Bytes ''old'']) = 1
   \<and> disk (final (main (command [(''-c'', ''out''), (''-h'', [])] two_files silent) [''out.org'' \<mapsto> Bytes ''old'']))
       = [''out.org'' \<mapsto> Bytes ''old'']"
proof -
  have g: "getopt (command [(''-c'', ''out''), (''-h'', [])] two_files silent)
      = Some ([(''-c'', ''out''), (''-h'', [])], map fst two_files)"
    by (simp add: command_def)
  have h: "requested ''-h'' [(''-c'', ''out''), (''-h'', [])] \<or> requested ''-p'' [(''-c'', ''out''), (''-h'', [])]"
    by (simp add: requested_def)
  have o: "\<not> requested ''-o'' [(''-c'', ''out''), (''-h'', [])]"
    by (simp add: requested_def)
  have p: "prefix_option [(''-c'', ''out''), (''-h'', [])] = Some ''out''"
    by (simp add: prefix_option_def)
  have n: "''out'' \<noteq> []" by simp
  have e: "[''out.org'' \<mapsto> Bytes ''old''] (''out'' @ ''.org'') \<noteq> None" by simp
  from outline_exists [of _ _ _ "''out''" "[''out.org'' \<mapsto> Bytes ''old'']", OF g h o p n e]
  show ?thesis by (simp add: raised_def final_def exit_status_def decoded_options_fields)
qed

section \<open>The external tool\<close>

lemma decode_line_decoded: "decode_line raw = Inr (decoded raw)"
  by (simp add: decode_line_def decode_def encoding_def decoded_def split: option.splits)

lemma forward_line_cases:
  "forward_line st raw = Done (st\<lparr>stderr := stderr st @ [decoded raw]\<rparr>)
   \<or> (\<exists>name. forward_line st raw = Done (st\<lparr>stderr := stderr st @ [name @ ascii [newline]]\<rparr>))
   \<or> forward_line st raw = Done st"
  by (auto simp: forward_line_def decode_line_decoded split: option.splits)

lemma forward_line_Done: "\<exists>errs. forward_line st raw = Done (st\<lparr>stderr := stderr st @ errs\<rparr>)"
proof -
  have "st = st\<lparr>stderr := stderr st @ []\<rparr>" by simp
  with forward_line_cases [of st raw] show ?thesis by metis
qed

lemma forward_lines_Done: "\<exists>errs. forward_lines st raws = Done (st\<lparr>stderr := stderr st @ errs\<rparr>)"
proof (induction raws arbitrary: st)
  case Nil
  have "forward_lines st [] = Done (st\<lparr>stderr := stderr st @ []\<rparr>)" by simp
  then show ?case by blast
next
  case (Cons raw raws)
  obtain e1 where 1: "forward_line st raw = Done (st\<lparr>stderr := stderr st @ e1\<rparr>)"
    using forward_line_Done by blast
  obtain e2 where 2: "forward_lines (st\<lparr>stderr := stderr st @ e1\<rparr>) raws
      = Done (st\<lparr>stderr := stderr st @ e1\<rparr>\<lparr>stderr := stderr (st\<lparr>stderr := stderr st @ e1\<rparr>) @ e2\<rparr>)"
    using Cons.IH by blast
  have "forward_lines st (raw # raws) = Done (st\<lparr>stderr := stderr st @ (e1 @ e2)\<rparr>)"
    by (simp add: 1 2)
  then show ?case by blast
qed

lemma launch_emacs_started:
  assumes "prefix st = Some p"
    and "emacs ev (emacs_command (p @ ''.org'') format) (disk st) = Some (d', raws, status)"
  shows "\<exists>errs. launch_emacs ev format st = Done (st\<lparr>disk := d', stderr := stderr st @ errs\<rparr>)"
proof -
  obtain errs where "forward_lines (st\<lparr>disk := d'\<rparr>) raws
      = Done (st\<lparr>disk := d'\<rparr>\<lparr>stderr := stderr (st\<lparr>disk := d'\<rparr>) @ errs\<rparr>)"
    using forward_lines_Done by blast
  with assms have "launch_emacs ev format st = Done (st\<lparr>disk := d', stderr := stderr st @ errs\<rparr>)"
    by (simp add: launch_emacs_def with_prefix_def)
  then show ?thesis by blast
qed

lemma launch_emacs_with_status:
  "launch_emacs (with_status f ev) format st = launch_emacs ev format st"
  by (auto simp: launch_emacs_def with_prefix_def with_status_def split: option.splits)

lemma extract_files_with_status:
  "extract_files (with_status f ev) arguments st = extract_files ev arguments st"
  by (induction arguments arbitrary: st)
     (auto simp: with_status_def and_then_def split: option.splits outcome.splits)

lemma process_sources_with_status:
  "process_sources (with_status f ev) arguments st = process_sources ev arguments st"
  by (simp add: process_sources_def extract_files_with_status) (simp add: with_status_def)

lemma complete_with_status: "complete (with_status f ev) = complete ev"
  by (rule ext) (simp add: complete_def launch_emacs_with_status cong: if_cong)


text \<open>
  C9.  The exit status of the tool has no effect: a run with a tool that differs from
  another in its exit status only has the same outcome, and so has each call of
  \<open>launch_emacs\<close>.  Whenever the tool can be started, \<open>launch_emacs\<close> returns
  normally, whatever the status: it takes the tool's changes to the files and adds
  lines to the error stream, and nothing else.
\<close>

theorem exit_status_ignored:
  "main (with_status f ev) d = main ev d
   \<and> launch_emacs (with_status f ev) format st = launch_emacs ev format st
   \<and> (\<forall>p d' raws status. prefix st = Some p
        \<and> emacs ev (emacs_command (p @ ''.org'') format) (disk st) = Some (d', raws, status)
        \<longrightarrow> (\<exists>errs. launch_emacs ev format st = Done (st\<lparr>disk := d', stderr := stderr st @ errs\<rparr>)))"
proof -
  have g: "getopt (with_status f ev) = getopt ev" by (simp add: with_status_def)
  have "main (with_status f ev) d = main ev d"
    unfolding main_def g
    by (auto simp: process_sources_with_status complete_with_status split: option.splits)
  then show ?thesis
    using launch_emacs_started by (auto simp: launch_emacs_with_status)
qed

text \<open>
  A run whose tool prints an error and exits with status 255 ends with exit status 0,
  the error on the error stream; it is the run it would be with status 0.
\<close>

theorem exit_status_ignored_witness:
  "exit_status (main (command [(''-c'', ''out''), (''-o'', []), (''-h'', [])] two_files failing_tool) Map.empty) = 0
   \<and> stderr (final (main (command [(''-c'', ''out''), (''-o'', []), (''-h'', [])] two_files failing_tool) Map.empty))
       = [ascii (''Symbol function definition is void'' @ [newline])]
   \<and> main (with_status (\<lambda>argv status. 0) (command [(''-c'', ''out''), (''-o'', []), (''-h'', [])] two_files failing_tool)) Map.empty
       = main (command [(''-c'', ''out''), (''-o'', []), (''-h'', [])] two_files failing_tool) Map.empty"
proof -
  let ?ev = "command [(''-c'', ''out''), (''-o'', []), (''-h'', [])] two_files failing_tool"
  have 1: "exit_status (main ?ev Map.empty) = 0" by code_simp
  have 2: "stderr (final (main ?ev Map.empty)) = [ascii (''Symbol function definition is void'' @ [newline])]"
    by code_simp
  from exit_status_ignored [of "\<lambda>argv status. 0" ?ev Map.empty]
  have 3: "main (with_status (\<lambda>argv status. 0) ?ev) Map.empty = main ?ev Map.empty"
    by (rule conjunct1)
  from 1 2 3 show ?thesis by simp
qed

section \<open>The filter on the tool's output\<close>

lemma startswith_append: "startswith s p = (\<exists>rest. s = p @ rest)"
  unfolding startswith_def
  by (metis append_eq_conv_conj append_take_drop_id)

lemma noisy_prefix: "list_ex (\<lambda>p. startswith line (ascii p)) noisy = has_noisy_prefix line"
  by (simp add: list_ex_iff has_noisy_prefix_def startswith_append)

lemma endswith_append: "endswith s p = (\<exists>front. s = front @ p)"
  unfolding endswith_def
  by (metis append_eq_conv_conj append_take_drop_id diff_add_inverse2 le_add2 length_append)

lemma takeWhile_last:
  "c \<notin> set name \<Longrightarrow> rev (takeWhile (\<lambda>x. x \<noteq> c) (rev (dir @ c # name))) = name"
proof -
  assume n: "c \<notin> set name"
  have "takeWhile (\<lambda>x. x \<noteq> c) (rev name @ c # rev dir)
      = rev name @ takeWhile (\<lambda>x. x \<noteq> c) (c # rev dir)"
    by (rule takeWhile_append2) (use n in auto)
  then show ?thesis by simp
qed

lemma split_at_last:
  assumes "length (takeWhile (\<lambda>x. x \<noteq> c) (rev b)) < length b"
  shows "b = take (length b - length (takeWhile (\<lambda>x. x \<noteq> c) (rev b)) - 1) b
             @ c # rev (takeWhile (\<lambda>x. x \<noteq> c) (rev b))"
proof -
  let ?tw = "takeWhile (\<lambda>x. x \<noteq> c) (rev b)"
  let ?dw = "dropWhile (\<lambda>x. x \<noteq> c) (rev b)"
  have id: "rev b = ?tw @ ?dw" by simp
  from assms have ne: "?dw \<noteq> []"
    by (metis id append_Nil2 length_rev less_irrefl)
  then have "hd ?dw = c" using hd_dropWhile [of "\<lambda>x. x \<noteq> c" "rev b"] by simp
  with ne have dw: "?dw = c # tl ?dw" by (metis list.collapse)
  have "b = rev (rev b)" by simp
  also have "\<dots> = rev (?tw @ c # tl ?dw)" using id dw by metis
  finally have b: "b = rev (tl ?dw) @ c # rev ?tw" by simp
  have "length b = length (rev (tl ?dw)) + 1 + length ?tw"
    by (subst b) simp
  then have l: "length b - length ?tw - 1 = length (rev (tl ?dw))" by simp
  have "take (length (rev (tl ?dw))) b = rev (tl ?dw)"
    by (subst b) simp
  with l b show ?thesis by metis
qed


lemma ascii_length: "length (ascii s) = length s"
  by (simp add: ascii_def)

lemma ascii_append: "ascii (a @ b) = ascii a @ ascii b"
  by (simp add: ascii_def)

lemma endswith_last: "endswith s p \<Longrightarrow> p \<noteq> [] \<Longrightarrow> last s = last p"
  by (auto simp: endswith_append)

lemma endswith_self: "endswith (front @ p) p"
  by (auto simp: endswith_append)

lemma cache_match_body:
  "cache_match line =
     (if \<not> startswith line (ascii ''Loading '') then None
      else case cache_body (drop 8 line) of
             None \<Rightarrow> None
           | Some b \<Rightarrow>
               let name = rev (takeWhile (\<lambda>c. c \<noteq> of_char CHR ''/'') (rev b));
                   dir = take (length b - length name - 1) b
               in if length name < length b \<and> name \<noteq> [] \<and> of_char newline \<notin> set dir
                  then Some name else None)"
  by (simp add: cache_match_def cache_body_def Let_def)

lemma cache_body_plain: "cache_body (b @ ascii ''.cache...'') = Some b"
proof -
  have "last (b @ ascii ''.cache...'') = 46" by (simp add: ascii_def)
  moreover have "last (ascii (''.cache...'' @ [newline])) = 10" by (simp add: ascii_def newline_def)
  ultimately have "\<not> endswith (b @ ascii ''.cache...'') (ascii (''.cache...'' @ [newline]))"
    using endswith_last [of "b @ ascii ''.cache...''" "ascii (''.cache...'' @ [newline])"]
    by (auto simp: ascii_def)
  moreover have "endswith (b @ ascii ''.cache...'') (ascii ''.cache...'')"
    by (rule endswith_self)
  moreover have "take (length (b @ ascii ''.cache...'') - 9) (b @ ascii ''.cache...'') = b"
    by (simp add: ascii_length)
  ultimately show ?thesis unfolding cache_body_def by simp
qed

lemma cache_body_newline: "cache_body (b @ ascii ''.cache...'' @ ascii [newline]) = Some b"
proof -
  have e: "b @ ascii ''.cache...'' @ ascii [newline] = b @ ascii (''.cache...'' @ [newline])"
    by (simp add: ascii_def)
  have "endswith (b @ ascii (''.cache...'' @ [newline])) (ascii (''.cache...'' @ [newline]))"
    by (rule endswith_self)
  moreover have "take (length (b @ ascii (''.cache...'' @ [newline])) - 10) (b @ ascii (''.cache...'' @ [newline])) = b"
    by (simp add: ascii_length)
  ultimately show ?thesis unfolding cache_body_def e by simp
qed

lemma cache_body_Some:
  "cache_body r = Some b \<Longrightarrow> r = b @ ascii ''.cache...'' \<or> r = b @ ascii ''.cache...'' @ ascii [newline]"
proof -
  assume a: "cache_body r = Some b"
  show ?thesis
  proof (cases "endswith r (ascii (''.cache...'' @ [newline]))")
    case True
    then obtain front where r: "r = front @ ascii (''.cache...'' @ [newline])"
      by (auto simp: endswith_append)
    have "take (length r - 10) r = front" unfolding r by (simp add: ascii_length)
    with a True have "b = front" by (simp add: cache_body_def)
    with r show ?thesis by (simp add: ascii_def)
  next
    case False
    with a have e: "endswith r (ascii ''.cache...'')" and t: "b = take (length r - 9) r"
      by (auto simp: cache_body_def split: if_splits)
    from e obtain front where r: "r = front @ ascii ''.cache...''"
      by (auto simp: endswith_append)
    have "take (length r - 9) r = front" unfolding r by (simp add: ascii_length)
    with t r show ?thesis by simp
  qed
qed

lemma cache_match_complete:
  assumes "cache_line line name"
  shows "cache_match line = Some name"
proof -
  from assms obtain dir tail where line: "line = ascii ''Loading '' @ dir @ ascii ''/'' @ name @ ascii ''.cache...'' @ tail"
    and dir: "of_char newline \<notin> set dir" and name: "name \<noteq> []" "of_char CHR ''/'' \<notin> set name"
    and tail: "tail = [] \<or> tail = ascii [newline]"
    unfolding cache_line_def by blast
  let ?b = "dir @ of_char CHR ''/'' # name"
  have s: "startswith line (ascii ''Loading '')" unfolding line startswith_append by blast
  have "drop 8 line = ?b @ ascii ''.cache...'' @ tail"
    unfolding line by (simp add: ascii_length) (simp add: ascii_def)
  with tail have body: "cache_body (drop 8 line) = Some ?b"
    using cache_body_plain [of ?b] cache_body_newline [of ?b] by auto
  have nm: "rev (takeWhile (\<lambda>c. c \<noteq> of_char CHR ''/'') (rev ?b)) = name"
    by (rule takeWhile_last [OF name(2)])
  have d: "take (length ?b - length name - 1) ?b = dir" by simp
  have l: "length name < length ?b" by simp
  show ?thesis
    unfolding cache_match_body using s dir name(1) l
    by (simp only: body nm d Let_def option.case if_True if_False not_True_eq_False simp_thms)
qed

lemma cache_match_sound:
  assumes "cache_match line = Some name"
  shows "cache_line line name"
proof -
  from assms have s: "startswith line (ascii ''Loading '')"
    unfolding cache_match_body by (simp split: if_splits)
  then obtain r where line: "line = ascii ''Loading '' @ r" unfolding startswith_append by blast
  then have r: "drop 8 line = r" by (simp add: ascii_length)
  from assms s obtain b where body: "cache_body r = Some b"
    unfolding cache_match_body r by (auto split: option.splits)
  let ?tw = "takeWhile (\<lambda>c. c \<noteq> of_char CHR ''/'') (rev b)"
  from assms s body have n: "name = rev ?tw" and l: "length (rev ?tw) < length b"
    and ne: "rev ?tw \<noteq> []" and d: "of_char newline \<notin> set (take (length b - length (rev ?tw) - 1) b)"
    unfolding cache_match_body r by (auto simp: Let_def split: if_splits)
  from l have "length ?tw < length b" by simp
  from split_at_last [OF this]
  have b: "b = take (length b - length (rev ?tw) - 1) b @ of_char CHR ''/'' # name"
    unfolding n by simp
  have sl: "of_char CHR ''/'' \<notin> set name"
    unfolding n using set_takeWhileD [of "of_char CHR ''/''" "\<lambda>c. c \<noteq> of_char CHR ''/''" "rev b"] by auto
  let ?dir = "take (length b - length (rev ?tw) - 1) b"
  from cache_body_Some [OF body] obtain tail where t: "r = b @ ascii ''.cache...'' @ tail"
    and tail: "tail = [] \<or> tail = ascii [newline]" by auto
  have "line = ascii ''Loading '' @ ?dir @ ascii ''/'' @ name @ ascii ''.cache...'' @ tail"
    unfolding line t by (subst b) (simp add: ascii_def)
  with d ne n sl tail show ?thesis
    unfolding cache_line_def by blast
qed

lemma cache_line_iff: "cache_line line name = (cache_match line = Some name)"
  using cache_match_complete cache_match_sound by blast

lemma forward_line_rules:
  "decode_line raw = Inr (decoded raw)
   \<and> (verbose st \<longrightarrow>
        forward_line st raw = Done (st\<lparr>stderr := stderr st @ [decoded raw]\<rparr>))
   \<and> (\<not> verbose st \<and> cache_line (decoded raw) name \<longrightarrow>
        forward_line st raw = Done (st\<lparr>stderr := stderr st @ [name @ ascii [newline]]\<rparr>))
   \<and> (\<not> verbose st \<and> (\<forall>n. \<not> cache_line (decoded raw) n) \<and> has_noisy_prefix (decoded raw) \<longrightarrow>
        forward_line st raw = Done st)
   \<and> (\<not> verbose st \<and> (\<forall>n. \<not> cache_line (decoded raw) n) \<and> \<not> has_noisy_prefix (decoded raw) \<longrightarrow>
        forward_line st raw = Done (st\<lparr>stderr := stderr st @ [decoded raw]\<rparr>))"
proof -
  have none: "(\<forall>n. \<not> cache_line (decoded raw) n) = (cache_match (decoded raw) = None)"
    by (auto simp: cache_line_iff)
  show ?thesis
    unfolding none cache_line_iff
    by (simp add: forward_line_def decode_line_decoded noisy_prefix)
qed

lemma forwarded_rules:
  "forwarded True raw = [decoded raw]
   \<and> (cache_line (decoded raw) name \<longrightarrow> forwarded False raw = [name @ ascii [newline]])
   \<and> ((\<forall>n. \<not> cache_line (decoded raw) n) \<and> has_noisy_prefix (decoded raw) \<longrightarrow> forwarded False raw = [])
   \<and> ((\<forall>n. \<not> cache_line (decoded raw) n) \<and> \<not> has_noisy_prefix (decoded raw) \<longrightarrow>
        forwarded False raw = [decoded raw])"
proof -
  have none: "(\<forall>n. \<not> cache_line (decoded raw) n) = (cache_match (decoded raw) = None)"
    by (auto simp: cache_line_iff)
  show ?thesis
    unfolding none cache_line_iff
    by (simp add: forwarded_def noisy_prefix)
qed

lemma forward_line_forwarded:
  "forward_line st raw = Done (st\<lparr>stderr := stderr st @ forwarded (verbose st) raw\<rparr>)"
  by (simp add: forward_line_def forwarded_def decode_line_decoded split: option.splits)

lemma forward_lines_forwarded:
  "forward_lines st raws = Done (st\<lparr>stderr := stderr st @ concat (map (forwarded (verbose st)) raws)\<rparr>)"
proof (induction raws arbitrary: st)
  case Nil
  then show ?case by simp
next
  case (Cons raw raws)
  show ?case
    by (simp add: forward_line_forwarded Cons.IH)
qed

lemma launch_emacs_forwarded:
  assumes "prefix st = Some p"
    and "emacs ev (emacs_command (p @ ''.org'') format) (disk st) = Some (d', raws, status)"
  shows "launch_emacs ev format st
     = Done (st\<lparr>disk := d', stderr := stderr st @ concat (map (forwarded (verbose st)) raws)\<rparr>)"
  using assms by (simp add: launch_emacs_def with_prefix_def forward_lines_forwarded)


text \<open>
  C8.  Each line of the tool's output is decoded as UTF-8, and byte for byte
  (ISO-8859-1) when that fails.  What is written for a line: in verbose mode the decoded
  line as it is; otherwise, for a line of the form \<open>Loading <dir>/<name>.cache...\<close>,
  \<open><name>\<close> and a newline; for a line that is not of this form and starts with one of
  the noisy prefixes, nothing; for every other line, the decoded line as it is.  The
  loop of \<open>launch_emacs\<close> writes this for every line of the output, in order, after
  what the error stream held, and nothing else: so does a call of \<open>launch_emacs\<close>
  whose tool starts.
\<close>

theorem tool_output_filter:
  "decode_line raw = Inr (decoded raw)
   \<and> forwarded True raw = [decoded raw]
   \<and> (cache_line (decoded raw) name \<longrightarrow> forwarded False raw = [name @ ascii [newline]])
   \<and> ((\<forall>n. \<not> cache_line (decoded raw) n) \<and> has_noisy_prefix (decoded raw) \<longrightarrow> forwarded False raw = [])
   \<and> ((\<forall>n. \<not> cache_line (decoded raw) n) \<and> \<not> has_noisy_prefix (decoded raw) \<longrightarrow>
        forwarded False raw = [decoded raw])
   \<and> forward_line st raw = Done (st\<lparr>stderr := stderr st @ forwarded (verbose st) raw\<rparr>)
   \<and> forward_lines st raws
       = Done (st\<lparr>stderr := stderr st @ concat (map (forwarded (verbose st)) raws)\<rparr>)
   \<and> (prefix st = Some p
        \<and> emacs ev (emacs_command (p @ ''.org'') format) (disk st) = Some (d', raws, status) \<longrightarrow>
        launch_emacs ev format st
          = Done (st\<lparr>disk := d', stderr := stderr st @ concat (map (forwarded (verbose st)) raws)\<rparr>))"
  using forwarded_rules [of raw name] launch_emacs_forwarded [of st p ev format d' raws status]
  by (simp add: decode_line_decoded forward_line_forwarded forward_lines_forwarded)

text \<open>
  The byte \<open>0xE9\<close> alone is not UTF-8 and decodes to the code point 233.  A cache line
  is written whole in verbose mode and as \<open>org\<close> otherwise; \<open>Loading subst-ksc...\<close> is
  dropped; a warning is written.  Of the three lines of the tool that writes
  \<open>out.html\<close>, a run writes the name of the cache and the warning, and a verbose call
  all three.
\<close>

theorem tool_output_filter_witness:
  "decoded [CHR 0xE9, newline] = [233, 10]
   \<and> forwarded True (''Loading /usr/share/emacs/org.cache...'' @ [newline])
       = [ascii (''Loading /usr/share/emacs/org.cache...'' @ [newline])]
   \<and> forwarded False (''Loading /usr/share/emacs/org.cache...'' @ [newline]) = [ascii (''org'' @ [newline])]
   \<and> forwarded False (''Loading subst-ksc...'' @ [newline]) = []
   \<and> forwarded False (''Warning: no title'' @ [newline]) = [ascii (''Warning: no title'' @ [newline])]
   \<and> stderr (final (launch_emacs (command [] [] exporter) ''html'' (initial Map.empty\<lparr>prefix := Some ''out''\<rparr>)))
       = [ascii (''org'' @ [newline]), ascii (''Warning: no title'' @ [newline])]
   \<and> stderr (final (launch_emacs (command [] [] exporter) ''html''
         (initial Map.empty\<lparr>prefix := Some ''out'', verbose := True\<rparr>)))
       = [ascii (''Loading /usr/share/emacs/org.cache...'' @ [newline]),
          ascii (''Exporting...'' @ [newline]),
          ascii (''Warning: no title'' @ [newline])]
   \<and> stderr (final (main (command [(''-c'', ''out''), (''-h'', [])] two_files exporter) Map.empty))
       = [ascii (''org'' @ [newline]), ascii (''Warning: no title'' @ [newline])]"
proof -
  let ?quiet = "initial Map.empty\<lparr>prefix := Some ''out''\<rparr>"
  let ?loud = "initial Map.empty\<lparr>prefix := Some ''out'', verbose := True\<rparr>"
  let ?ev = "command [] [] exporter"
  let ?cache = "''Loading /usr/share/emacs/org.cache...'' @ [newline]"
  let ?export = "''Exporting...'' @ [newline]"
  let ?load = "''Loading subst-ksc...'' @ [newline]"
  let ?warn = "''Warning: no title'' @ [newline]"
  let ?d = "(Map.empty :: string \<rightharpoonup> content)(''out.html'' \<mapsto> Bytes ''<html/>'')"
  have q: "\<not> verbose ?quiet" "stderr ?quiet = []" "prefix ?quiet = Some ''out''" "disk ?quiet = Map.empty"
    and v: "verbose ?loud" "stderr ?loud = []" "prefix ?loud = Some ''out''" "disk ?loud = Map.empty"
    by (simp_all add: initial_def)
  have d0: "decoded [CHR 0xE9, newline] = [233, 10]" by code_simp
  have d1: "decoded ?cache = ascii ?cache" by code_simp
  have d2: "decoded ?load = ascii ?load" by code_simp
  have d3: "decoded ?warn = ascii ?warn" by code_simp
  have d4: "decoded ?export = ascii ?export" by code_simp
  have "cache_match (decoded ?cache) = Some (ascii ''org'')" by code_simp
  then have c1: "cache_line (decoded ?cache) (ascii ''org'')" by (simp add: cache_line_iff)
  have "cache_match (decoded ?load) = None" by code_simp
  then have c2: "\<forall>n. \<not> cache_line (decoded ?load) n" by (simp add: cache_line_iff)
  have "list_ex (\<lambda>p. startswith (decoded ?load) (ascii p)) noisy" by code_simp
  then have n2: "has_noisy_prefix (decoded ?load)" by (simp add: noisy_prefix)
  have "cache_match (decoded ?warn) = None" by code_simp
  then have c3: "\<forall>n. \<not> cache_line (decoded ?warn) n" by (simp add: cache_line_iff)
  have "\<not> list_ex (\<lambda>p. startswith (decoded ?warn) (ascii p)) noisy" by code_simp
  then have n3: "\<not> has_noisy_prefix (decoded ?warn)" by (simp add: noisy_prefix)
  have "cache_match (decoded ?export) = None" by code_simp
  then have c4: "\<forall>n. \<not> cache_line (decoded ?export) n" by (simp add: cache_line_iff)
  have "list_ex (\<lambda>p. startswith (decoded ?export) (ascii p)) noisy" by code_simp
  then have n4: "has_noisy_prefix (decoded ?export)" by (simp add: noisy_prefix)
  have e: "emacs ?ev (emacs_command (''out'' @ ''.org'') ''html'') Map.empty
      = Some (?d, [?cache, ?export, ?warn], 0)"
    by (simp add: command_def exporter_def)
  from tool_output_filter [where raw = ?cache and name = "ascii ''org''"] c1
  have 1: "forwarded True ?cache = [decoded ?cache]"
    and 2: "forwarded False ?cache = [ascii ''org'' @ ascii [newline]]" by blast+
  from tool_output_filter [where raw = ?load] c2 n2
  have 3: "forwarded False ?load = []" by blast
  from tool_output_filter [where raw = ?warn] c3 n3
  have 4: "forwarded False ?warn = [decoded ?warn]" 
    and v4: "forwarded True ?warn = [decoded ?warn]" by blast+
  from tool_output_filter [where raw = ?export] c4 n4
  have 5: "forwarded False ?export = []"
    and v5: "forwarded True ?export = [decoded ?export]" by blast+
  from tool_output_filter [where st = ?quiet and p = "''out''" and ev = ?ev and format = "''html''"
      and d' = ?d and raws = "[?cache, ?export, ?warn]" and status = 0] q e
  have 6: "launch_emacs ?ev ''html'' ?quiet
      = Done (?quiet\<lparr>disk := ?d, stderr := [] @ concat (map (forwarded False) [?cache, ?export, ?warn])\<rparr>)"
    by simp
  from tool_output_filter [where st = ?loud and p = "''out''" and ev = ?ev and format = "''html''"
      and d' = ?d and raws = "[?cache, ?export, ?warn]" and status = 0] v e
  have 7: "launch_emacs ?ev ''html'' ?loud
      = Done (?loud\<lparr>disk := ?d, stderr := [] @ concat (map (forwarded True) [?cache, ?export, ?warn])\<rparr>)"
    by simp
  have 8: "stderr (final (main (command [(''-c'', ''out''), (''-h'', [])] two_files exporter) Map.empty))
       = [ascii (''org'' @ [newline]), ascii (''Warning: no title'' @ [newline])]"
    by code_simp
  have a: "ascii ''org'' @ ascii [newline] = ascii (''org'' @ [newline])" by (simp add: ascii_def)
  have r1: "forwarded True ?cache = [ascii ?cache]" using 1 d1 by simp
  have r2: "forwarded False ?cache = [ascii (''org'' @ [newline])]" using 2 a by simp
  have r4: "forwarded False ?warn = [ascii ?warn]" using 4 d3 by simp
  have r5: "forwarded True ?export = [ascii ?export]" using v5 d4 by simp
  have r6: "forwarded True ?warn = [ascii ?warn]" using v4 d3 by simp
  have q6: "stderr (final (launch_emacs ?ev ''html'' ?quiet))
       = [ascii (''org'' @ [newline]), ascii ?warn]"
    unfolding 6 using r2 5 r4 by (simp add: final_def)
  have q7: "stderr (final (launch_emacs ?ev ''html'' ?loud))
       = [ascii ?cache, ascii ?export, ascii ?warn]"
    unfolding 7 using r1 r5 r6 by (simp add: final_def)
  from d0 r1 r2 3 r4 q6 q7 8 show ?thesis by blast
qed

section \<open>The life of the outline file\<close>

lemma and_then_Done: "and_then r k = Done st' \<Longrightarrow> \<exists>s. r = Done s \<and> k s = Done st'"
  by (cases r) (simp_all add: and_then_def)

lemma check_options_Done:
  assumes "check_options st = Done st'"
  shows "st' = st \<and> (\<exists>p. prefix st = Some p \<and> p \<noteq> []
           \<and> ((html st \<or> pdf st) \<and> \<not> org st \<longrightarrow> disk st (p @ ''.org'') = None))"
  using assms
  by (cases "prefix st") (auto simp: check_options_def with_prefix_def split: if_splits)

lemma prepare_prefix:
  assumes "prefix st = Some p"
  shows "prepare st =
     Done (st\<lparr>org_file := (if html st \<or> org st \<or> pdf st then Some \<lparr>path = p @ ''.org'', written = []\<rparr> else None),
              disk := (if html st \<or> org st \<or> pdf st then (disk st)(p @ ''.org'' \<mapsto> Bytes []) else disk st),
              po := (if pot st then Some \<lparr>metadata = po_metadata, entries = []\<rparr> else po st)\<rparr>)"
  using assms by (simp add: prepare_def with_prefix_def and_then_def)

lemma launch_emacs_Done:
  assumes "launch_emacs ev format st = Done st'"
  shows "\<exists>d' errs. st' = st\<lparr>disk := d', stderr := stderr st @ errs\<rparr>
           \<and> (keeps ev f \<longrightarrow> d' f = disk st f)"
proof -
  from assms obtain p where p: "prefix st = Some p"
    by (cases "prefix st") (auto simp: launch_emacs_def with_prefix_def)
  from assms p obtain d' raws status
    where e: "emacs ev (emacs_command (p @ ''.org'') format) (disk st) = Some (d', raws, status)"
    by (cases "emacs ev (emacs_command (p @ ''.org'') format) (disk st)")
       (auto simp: launch_emacs_def with_prefix_def)
  from launch_emacs_started [OF p e] assms
  obtain errs where "st' = st\<lparr>disk := d', stderr := stderr st @ errs\<rparr>" by auto
  moreover from e have "keeps ev f \<longrightarrow> d' f = disk st f" unfolding keeps_def by blast
  ultimately show ?thesis by blast
qed

lemma optional_launch_Done:
  assumes "(if c then launch_emacs ev format st else Done st) = Done st'"
  shows "\<exists>d' errs. st' = st\<lparr>disk := d', stderr := stderr st @ errs\<rparr>
           \<and> (keeps ev f \<or> \<not> c \<longrightarrow> d' f = disk st f)"
proof (cases c)
  case True
  with assms launch_emacs_Done [of ev format st st' f] show ?thesis by auto
next
  case False
  with assms have "st' = st\<lparr>disk := disk st, stderr := stderr st @ []\<rparr>" by simp
  then show ?thesis by blast
qed

lemma save_po_Done:
  assumes "save_po st = Done st'" and "prefix st = Some p"
  shows "\<exists>d'. st' = st\<lparr>disk := d'\<rparr> \<and> d' (p @ ''.org'') = disk st (p @ ''.org'')"
proof (cases "pot st")
  case True
  with assms obtain cat where "po st = Some cat"
    by (cases "po st") (auto simp: save_po_def)
  with True assms have "st' = st\<lparr>disk := (disk st)(p @ ''.pot'' \<mapsto> Catalog cat)\<rparr>"
    by (simp add: save_po_def with_prefix_def)
  moreover have "((disk st)(p @ ''.pot'' \<mapsto> Catalog cat)) (p @ ''.org'') = disk st (p @ ''.org'')"
    by simp
  ultimately show ?thesis by blast
next
  case False
  with assms have "st' = st\<lparr>disk := disk st\<rparr>" by (simp add: save_po_def)
  then show ?thesis by blast
qed

lemma remove_org_Done:
  assumes "remove_org st = Done st'" and "prefix st = Some p"
  shows "\<exists>d'. st' = st\<lparr>disk := d'\<rparr>
      \<and> d' (p @ ''.org'') = (if (html st \<or> pdf st) \<and> \<not> org st then None else disk st (p @ ''.org''))"
proof (cases "(html st \<or> pdf st) \<and> \<not> org st")
  case True
  with assms have "st' = st\<lparr>disk := (disk st)(p @ ''.org'' := None)\<rparr>"
    by (auto simp: remove_org_def with_prefix_def split: if_splits)
  moreover have "((disk st)(p @ ''.org'' := None)) (p @ ''.org'') = None" by simp
  ultimately show ?thesis using True by auto
next
  case False
  with assms have "st' = st\<lparr>disk := disk st\<rparr>" by (auto simp: remove_org_def)
  moreover have "disk st (p @ ''.org'')
      = (if (html st \<or> pdf st) \<and> \<not> org st then None else disk st (p @ ''.org''))"
    using False by auto
  ultimately show ?thesis by blast
qed


lemma close_org_Done:
  assumes "close_org st = Done st'"
  shows "\<exists>d'. st' = st\<lparr>disk := d'\<rparr>
      \<and> d' f = (case org_file st of
                  None \<Rightarrow> disk st f
                | Some h \<Rightarrow> if path h = f then Some (Bytes (concat (written h))) else disk st f)"
proof (cases "org_file st")
  case None
  with assms have "st' = st\<lparr>disk := disk st\<rparr>" by (simp add: close_org_def)
  moreover have "disk st f = (case org_file st of
                  None \<Rightarrow> disk st f
                | Some h \<Rightarrow> if path h = f then Some (Bytes (concat (written h))) else disk st f)"
    using None by simp
  ultimately show ?thesis by blast
next
  case (Some h)
  with assms have "st' = st\<lparr>disk := (disk st)(path h \<mapsto> Bytes (concat (written h)))\<rparr>"
    by (simp add: close_org_def)
  moreover have "((disk st)(path h \<mapsto> Bytes (concat (written h)))) f
      = (case org_file st of
                  None \<Rightarrow> disk st f
                | Some h \<Rightarrow> if path h = f then Some (Bytes (concat (written h))) else disk st f)"
    using Some by simp
  ultimately show ?thesis by blast
qed

text \<open>What \<open>complete\<close> leaves in the outline file of a run that ends well.\<close>

lemma complete_Done:
  assumes "complete ev st = Done st'" and "prefix st = Some p"
  shows "org_file st' = org_file st
     \<and> ((html st \<or> pdf st) \<and> \<not> org st \<longrightarrow> disk st' (p @ ''.org'') = None)
     \<and> (\<not> ((html st \<or> pdf st) \<and> \<not> org st) \<and> (keeps ev (p @ ''.org'') \<or> \<not> (html st \<or> pdf st)) \<longrightarrow>
          disk st' (p @ ''.org'')
            = (case org_file st of
                 None \<Rightarrow> disk st (p @ ''.org'')
               | Some h \<Rightarrow> if path h = p @ ''.org'' then Some (Bytes (concat (written h)))
                           else disk st (p @ ''.org'')))"
proof -
  let ?f = "p @ ''.org''"
  from assms(1) obtain sa where a: "save_po st = Done sa"
    and 1: "and_then (close_org sa) (\<lambda>st.
              and_then (if html st then launch_emacs ev ''html'' st else Done st) (\<lambda>st.
              and_then (if pdf st then launch_emacs ev ''pdf'' st else Done st) remove_org)) = Done st'"
    unfolding complete_def by (blast dest: and_then_Done)
  from 1 obtain sb where b: "close_org sa = Done sb"
    and 2: "and_then (if html sb then launch_emacs ev ''html'' sb else Done sb) (\<lambda>st.
              and_then (if pdf st then launch_emacs ev ''pdf'' st else Done st) remove_org) = Done st'"
    by (blast dest: and_then_Done)
  from 2 obtain sc where c: "(if html sb then launch_emacs ev ''html'' sb else Done sb) = Done sc"
    and 3: "and_then (if pdf sc then launch_emacs ev ''pdf'' sc else Done sc) remove_org = Done st'"
    by (blast dest: and_then_Done)
  from 3 obtain sd where dd: "(if pdf sc then launch_emacs ev ''pdf'' sc else Done sc) = Done sd"
    and e: "remove_org sd = Done st'"
    by (blast dest: and_then_Done)
  from save_po_Done [OF a assms(2)] obtain da where sa: "sa = st\<lparr>disk := da\<rparr>"
    and da: "da ?f = disk st ?f" by blast
  from close_org_Done [OF b, of ?f] obtain db where sb: "sb = sa\<lparr>disk := db\<rparr>"
    and db: "db ?f = (case org_file sa of None \<Rightarrow> disk sa ?f
                      | Some h \<Rightarrow> if path h = ?f then Some (Bytes (concat (written h))) else disk sa ?f)"
    by blast
  from optional_launch_Done [OF c, of ?f] obtain dc ec where sc: "sc = sb\<lparr>disk := dc, stderr := stderr sb @ ec\<rparr>"
    and dc: "keeps ev ?f \<or> \<not> html sb \<longrightarrow> dc ?f = disk sb ?f" by blast
  from optional_launch_Done [OF dd, of ?f] obtain de ee where sd: "sd = sc\<lparr>disk := de, stderr := stderr sc @ ee\<rparr>"
    and de: "keeps ev ?f \<or> \<not> pdf sc \<longrightarrow> de ?f = disk sc ?f" by blast
  have psd: "prefix sd = Some p" by (simp add: sd sc sb sa assms(2))
  from remove_org_Done [OF e psd] obtain df where sf: "st' = sd\<lparr>disk := df\<rparr>"
    and df: "df ?f = (if (html sd \<or> pdf sd) \<and> \<not> org sd then None else disk sd ?f)" by blast
  have flags: "html sd = html st" "pdf sd = pdf st" "org sd = org st" "html sb = html st" "pdf sc = pdf st"
    by (simp_all add: sd sc sb sa)
  have o: "org_file st' = org_file st" by (simp add: sf sd sc sb sa)
  have osa: "org_file sa = org_file st" by (simp add: sa)
  have r: "(html st \<or> pdf st) \<and> \<not> org st \<longrightarrow> disk st' ?f = None"
    using df flags by (simp add: sf)
  have k: "\<not> ((html st \<or> pdf st) \<and> \<not> org st) \<and> (keeps ev ?f \<or> \<not> (html st \<or> pdf st)) \<longrightarrow>
      disk st' ?f = db ?f"
    using df de dc flags by (auto simp: sf sd sc sb)
  have "db ?f = (case org_file st of None \<Rightarrow> disk st ?f
                      | Some h \<Rightarrow> if path h = ?f then Some (Bytes (concat (written h))) else disk st ?f)"
    using db da by (simp add: osa sa split: option.splits)
  with o r k show ?thesis by simp
qed

text \<open>
  C7, the counterexample.  A run with \<open>-c out\<close> and none of \<open>-o\<close>, \<open>-h\<close>, \<open>-p\<close>, on a
  file system that has \<open>out.org\<close>, ends well and leaves the file there, as it was.  A
  run with \<open>-c out -h\<close> on the same file system stops at line 61: \<open>-h\<close> is requested,
  and the file is not opened.
\<close>

theorem outline_file_left_in_place:
  "raised (main (command [(''-c'', ''out'')] two_files silent) [''out.org'' \<mapsto> Bytes ''old'']) = None
   \<and> disk (final (main (command [(''-c'', ''out'')] two_files silent) [''out.org'' \<mapsto> Bytes ''old''])) ''out.org''
       = Some (Bytes ''old'')
   \<and> requested ''-h'' [(''-c'', ''out''), (''-h'', [])]
   \<and> raised (main (command [(''-c'', ''out''), (''-h'', [])] two_files exporter) [''out.org'' \<mapsto> Bytes ''old''])
       = Some (SystemExit ''File out.org exists and -o not specified.'')
   \<and> org_file (final (main (command [(''-c'', ''out''), (''-h'', [])] two_files exporter) [''out.org'' \<mapsto> Bytes ''old'']))
       = None
   \<and> disk (final (main (command [(''-c'', ''out''), (''-h'', [])] two_files exporter) [''out.org'' \<mapsto> Bytes ''old''])) ''out.org''
       = Some (Bytes ''old'')"
  by code_simp

text \<open>
  C7, as amended.  In a run that ends well, the outline file \<open>PREFIX.org\<close> has been
  opened for writing if and only if one of \<open>-o\<close>, \<open>-h\<close>, \<open>-p\<close> is requested.  When
  \<open>-h\<close> or \<open>-p\<close> is requested and \<open>-o\<close> is not, there was no such file before the run
  and there is none after it.  When none of the three is requested, the file is after the
  run what it was before.  When \<open>-o\<close> is requested, and the tool leaves the file alone or
  is not run, the file holds the concatenation of the extracted texts after the run.
\<close>

theorem outline_file_lifecycle:
  assumes "getopt ev = Some (options, arguments)" and "main ev d = Done st'"
  shows "\<exists>p. prefix_option options = Some p \<and> p \<noteq> []
     \<and> (org_file st' \<noteq> None)
         = (requested ''-o'' options \<or> requested ''-h'' options \<or> requested ''-p'' options)
     \<and> ((requested ''-h'' options \<or> requested ''-p'' options) \<and> \<not> requested ''-o'' options
          \<longrightarrow> d (p @ ''.org'') = None \<and> disk st' (p @ ''.org'') = None)
     \<and> (\<not> requested ''-o'' options \<and> \<not> requested ''-h'' options \<and> \<not> requested ''-p'' options
          \<longrightarrow> disk st' (p @ ''.org'') = d (p @ ''.org''))
     \<and> (requested ''-o'' options
          \<and> (keeps ev (p @ ''.org'') \<or> \<not> (requested ''-h'' options \<or> requested ''-p'' options))
          \<longrightarrow> disk st' (p @ ''.org'') = Some (Bytes (concat (map fst (source_units ev arguments)))))"
proof -
  let ?cfg = "decoded_options d options"
  let ?us = "source_units ev arguments"
  note f = decoded_options_fields
  from assms have m: "and_then (check_options ?cfg) (\<lambda>st.
     and_then (prepare st) (\<lambda>st.
     and_then (process_sources ev arguments st) (complete ev))) = Done st'"
    by (simp add: main_options)
  from m obtain s1 where c: "check_options ?cfg = Done s1"
    and m1: "and_then (prepare s1) (\<lambda>st. and_then (process_sources ev arguments st) (complete ev)) = Done st'"
    by (blast dest: and_then_Done)
  from check_options_Done [OF c] obtain p where s1: "s1 = ?cfg"
    and p: "prefix ?cfg = Some p" "p \<noteq> []"
    and x: "(html ?cfg \<or> pdf ?cfg) \<and> \<not> org ?cfg \<longrightarrow> disk ?cfg (p @ ''.org'') = None"
    by blast
  let ?any = "requested ''-h'' options \<or> requested ''-o'' options \<or> requested ''-p'' options"
  let ?s2 = "?cfg\<lparr>org_file := (if html ?cfg \<or> org ?cfg \<or> pdf ?cfg then Some \<lparr>path = p @ ''.org'', written = []\<rparr> else None),
              disk := (if html ?cfg \<or> org ?cfg \<or> pdf ?cfg then (disk ?cfg)(p @ ''.org'' \<mapsto> Bytes []) else disk ?cfg),
              po := (if pot ?cfg then Some \<lparr>metadata = po_metadata, entries = []\<rparr> else po ?cfg)\<rparr>"
  from m1 have m2: "and_then (process_sources ev arguments ?s2) (complete ev) = Done st'"
    unfolding s1 prepare_prefix [OF p(1)] by (simp add: and_then_def)
  then obtain s3 where ps: "process_sources ev arguments ?s2 = Done s3"
    and co: "complete ev s3 = Done st'"
    by (blast dest: and_then_Done)
  from ps have "feed ?s2 ?us = Done s3" by (simp add: process_sources_Done)
  from feed_Done [OF this]
  have s3: "s3 = ?s2\<lparr>org_file := map_option (\<lambda>f. f\<lparr>written := written f @ map fst ?us\<rparr>) (org_file ?s2),
              po := (if pot ?s2 then map_option (\<lambda>c. c\<lparr>entries := entries c @ map catalog_entry ?us\<rparr>) (po ?s2)
                     else po ?s2)\<rparr>"
    by blast
  have p3: "prefix s3 = Some p" by (subst s3) (simp add: p)
  have fl: "html s3 = requested ''-h'' options" "org s3 = requested ''-o'' options"
    "pdf s3 = requested ''-p'' options"
    by (subst s3, simp add: f)+
  have o3: "org_file s3 = (if ?any then Some \<lparr>path = p @ ''.org'', written = map fst ?us\<rparr> else None)"
    by (subst s3) (simp add: f)
  have d3: "disk s3 (p @ ''.org'') = (if ?any then Some (Bytes []) else d (p @ ''.org''))"
    by (subst s3) (simp add: f)
  note cd = complete_Done [OF co p3, unfolded fl o3 d3]
  from cd have a: "(org_file st' \<noteq> None) = ?any" by simp
  from cd have b: "(requested ''-h'' options \<or> requested ''-p'' options) \<and> \<not> requested ''-o'' options
          \<longrightarrow> disk st' (p @ ''.org'') = None" by blast
  from x have b0: "(requested ''-h'' options \<or> requested ''-p'' options) \<and> \<not> requested ''-o'' options
          \<longrightarrow> d (p @ ''.org'') = None" by (simp add: f)
  from cd have n: "\<not> requested ''-o'' options \<and> \<not> requested ''-h'' options \<and> \<not> requested ''-p'' options
          \<longrightarrow> disk st' (p @ ''.org'') = d (p @ ''.org'')" by simp
  from cd have k: "requested ''-o'' options
          \<and> (keeps ev (p @ ''.org'') \<or> \<not> (requested ''-h'' options \<or> requested ''-p'' options))
          \<longrightarrow> disk st' (p @ ''.org'') = Some (Bytes (concat (map fst ?us)))" by auto
  from p have "prefix_option options = Some p" by (simp add: f)
  with p(2) a b b0 n k show ?thesis by blast
qed

text \<open>
  With \<open>-c out -h\<close> the outline is opened, \<open>out.html\<close> is written and \<open>out.org\<close> is
  gone; with \<open>-o\<close> too it stays; with \<open>-c out -t\<close> it is never there.
\<close>

theorem outline_file_lifecycle_witness:
  "disk (final (main (command [(''-c'', ''out''), (''-h'', [])] two_files exporter) Map.empty)) ''out.org'' = None
   \<and> disk (final (main (command [(''-c'', ''out''), (''-h'', [])] two_files exporter) Map.empty)) ''out.html''
       = Some (Bytes ''<html/>'')
   \<and> org_file (final (main (command [(''-c'', ''out''), (''-h'', [])] two_files exporter) Map.empty)) \<noteq> None
   \<and> disk (final (main (command [(''-c'', ''out''), (''-o'', []), (''-h'', [])] two_files exporter) Map.empty)) ''out.org''
       = Some (Bytes ''onetwo'')
   \<and> disk (final (main (command [(''-c'', ''out''), (''-t'', [])] two_files exporter) Map.empty)) ''out.org'' = None
   \<and> org_file (final (main (command [(''-c'', ''out''), (''-t'', [])] two_files exporter) Map.empty)) = None"
proof -
  let ?oh = "[(''-c'', ''out''), (''-h'', [])]"
  let ?ooh = "[(''-c'', ''out''), (''-o'', []), (''-h'', [])]"
  let ?ot = "[(''-c'', ''out''), (''-t'', [])]"
  let ?h = "command ?oh two_files exporter"
  let ?o = "command ?ooh two_files exporter"
  let ?t = "command ?ot two_files exporter"
  have gh: "getopt ?h = Some (?oh, map fst two_files)"
    and go: "getopt ?o = Some (?ooh, map fst two_files)"
    and gt: "getopt ?t = Some (?ot, map fst two_files)"
    by (simp_all add: command_def)
  have "raised (main ?h Map.empty) = None" by code_simp
  then have mh: "main ?h Map.empty = Done (final (main ?h Map.empty))" by (rule Done_final)
  have "raised (main ?o Map.empty) = None" by code_simp
  then have mo: "main ?o Map.empty = Done (final (main ?o Map.empty))" by (rule Done_final)
  have "raised (main ?t Map.empty) = None" by code_simp
  then have mt: "main ?t Map.empty = Done (final (main ?t Map.empty))" by (rule Done_final)
  have ph: "prefix_option ?oh = Some ''out''" and po: "prefix_option ?ooh = Some ''out''"
    and pt: "prefix_option ?ot = Some ''out''"
    by (simp_all add: prefix_option_def)
  have rh: "requested ''-h'' ?oh" "\<not> requested ''-o'' ?oh" "\<not> requested ''-p'' ?oh"
    and ro: "requested ''-h'' ?ooh" "requested ''-o'' ?ooh" "\<not> requested ''-p'' ?ooh"
    and rt: "\<not> requested ''-h'' ?ot" "\<not> requested ''-o'' ?ot" "\<not> requested ''-p'' ?ot"
    by (simp_all add: requested_def)
  have k: "keeps ?o (''out'' @ ''.org'')"
    by (simp add: keeps_def command_def exporter_def)
  have u: "concat (map fst (source_units ?o (map fst two_files))) = ''onetwo''" by code_simp
  from outline_file_lifecycle [OF gh mh] ph rh
  have 1: "disk (final (main ?h Map.empty)) ''out.org'' = None"
    and 2: "org_file (final (main ?h Map.empty)) \<noteq> None" by auto
  have 3: "disk (final (main ?h Map.empty)) ''out.html'' = Some (Bytes ''<html/>'')" by code_simp
  from outline_file_lifecycle [OF go mo] po ro k u
  have 4: "disk (final (main ?o Map.empty)) ''out.org'' = Some (Bytes ''onetwo'')" by auto
  from outline_file_lifecycle [OF gt mt] pt rt
  have 5: "disk (final (main ?t Map.empty)) ''out.org'' = None"
    and 6: "org_file (final (main ?t Map.empty)) = None" by auto
  from 1 2 3 4 5 6 show ?thesis by blast
qed

end
